theory Spec2Isabelle
  imports
    Main
    "HOL-Library.Word"
    "HOL-Library.Multiset"
    "HOL-Library.Char_ord"
    "HOL-Library.List_Lexorder"
begin

section \<open>The result table of a BQL query (bql/table/table.go)\<close>

text \<open>
  A shallow embedding of package \<open>table\<close>. Every Go function that a property below
  speaks about is a HOL function of the same name. What a Go call can do besides returning
  is a value of the model: a call returns (possibly with a non-nil \<open>error\<close>), panics
  (a failed type assertion, a nil dereference, an index out of range, a negative length
  given to \<open>make\<close>), or ends the process (\<open>log.Fatalf\<close>).
\<close>

subsection \<open>How a call ends\<close>

datatype 'a outcome = Returns 'a | Panics | Exits

text \<open>The \<open>error\<close> values the package returns, one constructor for each message.\<close>

datatype error =
    DuplicatedBindings
  | UnknownProjectBinding string
  | AppendTableMismatch
  | DotProductNotDisjoint
  | EmptyRange nat nat
  | CannotProjectBindings
  | MissingBindingAlias string
  | UnknownReducerBinding string
  | InvalidReduceConfiguration
  | UnknownAccValue string
  | EmptyReducedRow
  | LiteralError

subsection \<open>Cells and rows\<close>

text \<open>
  The packages \<open>node\<close>, \<open>predicate\<close>, \<open>literal\<close> and \<open>time\<close> are imported, not part
  of this file. A value of one of their types is kept as what this package reads from it:
  the text of \<open>String()\<close> (for a time, of \<open>Format(time.RFC3339Nano)\<close>), and for a
  literal also \<open>ToComparableString()\<close> and the results of \<open>Int64()\<close> and \<open>Float64()\<close>.
  The values of Go's \<open>float64\<close> are an unspecified type: no floating-point arithmetic is
  modelled.
\<close>

typedecl float64

datatype Node = Node (Node_String: string)

datatype Predicate = Predicate (Predicate_String: string)

datatype Time = Time (Time_Format: string)

record Literal =
  Literal_String :: string
  Literal_ToComparableString :: string
  Literal_Int64 :: "error + 64 word"
  Literal_Float64 :: "error + float64"

text \<open>
  \<open>type Cell struct { S *string; N *node.Node; P *predicate.Predicate; L *literal.Literal;
  T *time.Time }\<close>: five pointers, \<open>None\<close> for \<open>nil\<close>. The struct does not force that
  at most one is set.
\<close>

record Cell =
  Cell_S :: "string option"
  Cell_N :: "Node option"
  Cell_P :: "Predicate option"
  Cell_L :: "Literal option"
  Cell_T :: "Time option"

definition Cell_String :: "Cell \<Rightarrow> string" where
  "Cell_String c =
     (case Cell_S c of Some s \<Rightarrow> s | None \<Rightarrow>
      (case Cell_N c of Some n \<Rightarrow> Node_String n | None \<Rightarrow>
       (case Cell_P c of Some p \<Rightarrow> Predicate_String p | None \<Rightarrow>
        (case Cell_L c of Some l \<Rightarrow> Literal_String l | None \<Rightarrow>
         (case Cell_T c of Some t \<Rightarrow> Time_Format t | None \<Rightarrow> ''<NULL>'')))))"

text \<open>
  \<open>type Row map[string]*Cell\<close>. A row of the model maps a binding to the cell its
  pointer leads to; the rows considered store no nil pointer, so that \<open>r b = None\<close> is
  both "the key is absent" (\<open>ok\<close> is false) and "the value read is the nil pointer".
\<close>

type_synonym Row = "string \<rightharpoonup> Cell"

subsection \<open>Sorting\<close>

text \<open>
  \<open>type SortConfig []struct { Binding string; Desc bool }\<close>. Go tells the nil slice
  from an empty one, and \<open>Sort\<close> and \<open>rowLess\<close> test for nil: \<open>None\<close> is the nil slice.
\<close>

record SortEntry =
  Binding :: string
  Desc :: bool

type_synonym SortConfig = "SortEntry list option"

text \<open>
  \<open>strings.TrimSpace\<close> on strings of bytes: the ASCII white space (tab, line feed,
  vertical tab, form feed, carriage return, space) is cut from both ends. The white space
  Unicode has beyond ASCII is not modelled.
\<close>

definition isSpace :: "char \<Rightarrow> bool" where
  "isSpace c = (c = CHR 0x09 \<or> c = CHR 0x0A \<or> c = CHR 0x0B \<or> c = CHR 0x0C \<or> c = CHR 0x0D
     \<or> c = CHR '' '')"

definition TrimSpace :: "string \<Rightarrow> string" where
  "TrimSpace s = rev (dropWhile isSpace (rev (dropWhile isSpace s)))"

text \<open>Go compares strings byte by byte; so does the order on \<open>string\<close> used here.\<close>

definition stringLess :: "string \<Rightarrow> string \<Rightarrow> bool \<Rightarrow> int" where
  "stringLess rsi rsj desc =
     (let si = TrimSpace rsi; sj = TrimSpace rsj in
      if (si = '''' \<and> sj = '''') \<or> si = sj then 0
      else (let b = (if si < sj then - 1 else 1) in
            if desc then b * (- 1) else b))"

text \<open>
  Lines 392 to 412 of \<open>rowLess\<close>: \<open>si, sj := "", ""\<close>, then five statements of the
  form \<open>if ci.X != nil && cj.X != nil { si, sj = f(*ci.X), f(*cj.X) }\<close>, each of which
  overwrites what an earlier one has set.
\<close>

definition ifBoth ::
  "'a option \<Rightarrow> 'a option \<Rightarrow> ('a \<Rightarrow> string) \<Rightarrow> string \<times> string \<Rightarrow> string \<times> string"
where
  "ifBoth x y f ss = (case x of None \<Rightarrow> ss | Some a \<Rightarrow> (case y of None \<Rightarrow> ss | Some b \<Rightarrow> (f a, f b)))"

definition comparedStrings :: "Cell \<Rightarrow> Cell \<Rightarrow> string \<times> string" where
  "comparedStrings ci cj =
     ifBoth (Cell_T ci) (Cell_T cj) Time_Format
       (ifBoth (Cell_L ci) (Cell_L cj) Literal_ToComparableString
         (ifBoth (Cell_P ci) (Cell_P cj) Predicate_String
           (ifBoth (Cell_N ci) (Cell_N cj) Node_String
             (ifBoth (Cell_S ci) (Cell_S cj) (\<lambda>s. s) ('''', '''')))))"

text \<open>
  \<open>rowLess\<close>. A nil configuration returns false; \<open>c[0]\<close> on an empty slice that is not
  nil panics; a row without the binding reaches \<open>log.Fatalf\<close>, which ends the process.
\<close>

fun rowLess :: "Row \<Rightarrow> Row \<Rightarrow> SortConfig \<Rightarrow> bool outcome" where
  "rowLess ri rj None = Returns False"
| "rowLess ri rj (Some []) = Panics"
| "rowLess ri rj (Some (cfg # rest)) =
     (case ri (Binding cfg) of
        None \<Rightarrow> Exits
      | Some ci \<Rightarrow>
          (case rj (Binding cfg) of
             None \<Rightarrow> Exits
           | Some cj \<Rightarrow>
               (let ss = comparedStrings ci cj;
                    l = stringLess (fst ss) (snd ss) (Desc cfg)
                in if l < 0 then Returns True
                   else if l > 0 \<or> rest = [] then Returns False
                   else rowLess ri rj (Some rest))))"

text \<open>
  \<open>sort.Sort\<close> belongs to Go's library. On a slice of at most 12 elements (at most 6
  before Go 1.19) it is the library's \<open>insertionSort\<close>,

  \<^verbatim>\<open>for i := a + 1; i < b; i++ {
    for j := i; j > a && data.Less(j, j-1); j-- { data.Swap(j, j-1) } }\<close>

  and this is the sort of the model. What the library does with longer slices (pdqsort,
  before Go 1.19 quicksort) is not modelled. A comparison that panics or ends the process
  ends the sort the same way.
\<close>

definition Swap :: "'a list \<Rightarrow> nat \<Rightarrow> nat \<Rightarrow> 'a list" where
  "Swap rows i j = rows[i := rows ! j, j := rows ! i]"

primrec insertionSort_inner ::
  "('a \<Rightarrow> 'a \<Rightarrow> bool outcome) \<Rightarrow> 'a list \<Rightarrow> nat \<Rightarrow> 'a list outcome"
where
  "insertionSort_inner cmp rows 0 = Returns rows"
| "insertionSort_inner cmp rows (Suc k) =
     (case cmp (rows ! Suc k) (rows ! k) of
        Returns b \<Rightarrow>
          if b then insertionSort_inner cmp (Swap rows (Suc k) k) k else Returns rows
      | Panics \<Rightarrow> Panics
      | Exits \<Rightarrow> Exits)"

fun insertionSort_outer ::
  "('a \<Rightarrow> 'a \<Rightarrow> bool outcome) \<Rightarrow> 'a list \<Rightarrow> nat list \<Rightarrow> 'a list outcome"
where
  "insertionSort_outer cmp rows [] = Returns rows"
| "insertionSort_outer cmp rows (i # rest) =
     (case insertionSort_inner cmp rows i of
        Returns rows' \<Rightarrow> insertionSort_outer cmp rows' rest
      | Panics \<Rightarrow> Panics
      | Exits \<Rightarrow> Exits)"

definition insertionSort :: "('a \<Rightarrow> 'a \<Rightarrow> bool outcome) \<Rightarrow> 'a list \<Rightarrow> 'a list outcome" where
  "insertionSort cmp rows = insertionSort_outer cmp rows [1..<length rows]"

subsection \<open>Tables\<close>

text \<open>
  \<open>type Table struct { bs []string; mbs map[string]bool; data []Row }\<close>. A Go map is a
  reference: after \<open>t.mbs = t2.mbs\<close> both tables hold the same map, and a later
  \<open>t.mbs[b] = true\<close> is seen through both. So the maps live in a store and a table holds
  the reference of its map. Slices are kept as lists.
\<close>

type_synonym ref = nat

record Table =
  bs :: "string list"
  mbs :: ref
  data :: "Row list"

record Store =
  maps :: "ref \<Rightarrow> (string \<rightharpoonup> bool)"
  fresh :: ref

text \<open>\<open>make(map[string]bool)\<close>, filled with \<open>m\<close>: a reference no table holds yet.\<close>

definition alloc :: "(string \<rightharpoonup> bool) \<Rightarrow> Store \<Rightarrow> ref \<times> Store" where
  "alloc m h = (fresh h, h\<lparr>maps := (maps h)(fresh h := m), fresh := Suc (fresh h)\<rparr>)"

text \<open>\<open>len(m)\<close> of a map.\<close>

definition len :: "('k \<rightharpoonup> 'v) \<Rightarrow> nat" where
  "len m = card (dom m)"

text \<open>The map a table's \<open>mbs\<close> refers to.\<close>

definition mbsOf :: "Store \<Rightarrow> Table \<Rightarrow> (string \<rightharpoonup> bool)" where
  "mbsOf h t = maps h (mbs t)"

definition New :: "string list \<Rightarrow> Store \<Rightarrow> (error + Table) \<times> Store" where
  "New names h =
     (let m = foldl (\<lambda>m b. m(b \<mapsto> True)) Map.empty names in
      if len m \<noteq> length names then (Inl DuplicatedBindings, h)
      else (let (r, h') = alloc m h in (Inr \<lparr>bs = names, mbs = r, data = []\<rparr>, h')))"

definition AddRow :: "Row \<Rightarrow> Table \<Rightarrow> Table" where
  "AddRow r t = (if r \<noteq> Map.empty then t\<lparr>data := data t @ [r]\<rparr> else t)"

definition NumRows :: "Table \<Rightarrow> nat" where
  "NumRows t = length (data t)"

fun AddBindings :: "string list \<Rightarrow> Table \<Rightarrow> Store \<Rightarrow> Table \<times> Store" where
  "AddBindings [] t h = (t, h)"
| "AddBindings (b # rest) t h =
     (if maps h (mbs t) b \<noteq> Some True
      then AddBindings rest (t\<lparr>bs := bs t @ [b]\<rparr>)
             (h\<lparr>maps := (maps h)(mbs t := (maps h (mbs t))(b \<mapsto> True))\<rparr>)
      else AddBindings rest t h)"

definition ProjectBindings :: "string list \<Rightarrow> Table \<Rightarrow> Store \<Rightarrow> error option \<times> Table \<times> Store" where
  "ProjectBindings names t h =
     (if length (data t) = 0 \<or> len (mbsOf h t) = 0 then (None, t, h)
      else (case find (\<lambda>b. mbsOf h t b \<noteq> Some True) names of
              Some b \<Rightarrow> (Some (UnknownProjectBinding b), t, h)
            | None \<Rightarrow>
                (let (r, h') = alloc Map.empty h;
                     (t', h'') = AddBindings names (t\<lparr>bs := [], mbs := r\<rparr>) h'
                 in (None, t', h''))))"

definition HasBinding :: "string \<Rightarrow> Table \<Rightarrow> Store \<Rightarrow> bool" where
  "HasBinding b t h = (mbsOf h t b = Some True)"

definition Bindings :: "Table \<Rightarrow> string list" where
  "Bindings t = bs t"

definition equalBindings :: "(string \<rightharpoonup> bool) \<Rightarrow> (string \<rightharpoonup> bool) \<Rightarrow> bool" where
  "equalBindings b1 b2 = (if len b1 \<noteq> len b2 then False else (\<forall>k \<in> dom b1. b2 k = Some True))"

text \<open>\<open>AppendTable\<close>; \<open>None\<close> is the nil table. No map is written, so the store stays.\<close>

fun AppendTable :: "Table option \<Rightarrow> Table \<Rightarrow> Store \<Rightarrow> error option \<times> Table" where
  "AppendTable None t h = (None, t)"
| "AppendTable (Some t2) t h =
     (if length (Bindings t) > 0 \<and> \<not> equalBindings (mbsOf h t) (mbsOf h t2)
      then (Some AppendTableMismatch, t)
      else (let t' = (if length (Bindings t) = 0 then t\<lparr>bs := bs t2, mbs := mbs t2\<rparr> else t)
            in (None, t'\<lparr>data := data t' @ data t2\<rparr>)))"

definition disjointBinding :: "(string \<rightharpoonup> bool) \<Rightarrow> (string \<rightharpoonup> bool) \<Rightarrow> bool" where
  "disjointBinding b1 b2 = (\<forall>k \<in> dom b1. b2 k \<noteq> Some True)"

text \<open>\<open>MergeRows\<close>: every entry of every row is written into \<open>res\<close>, a later row over an
  earlier one.\<close>

definition MergeRows :: "Row list \<Rightarrow> Row" where
  "MergeRows ms = foldl (\<lambda>res om. res ++ om) Map.empty ms"

text \<open>\<open>for k := range src { m[k] = true }\<close>.\<close>

definition markKeys :: "(string \<rightharpoonup> bool) \<Rightarrow> (string \<rightharpoonup> bool) \<Rightarrow> (string \<rightharpoonup> bool)" where
  "markKeys src m = (\<lambda>k. if src k \<noteq> None then Some True else m k)"

text \<open>
  Go does not fix the order in which \<open>range\<close> visits the keys of a map, and it may differ
  from one run to the next. \<open>rangeOrder m ks\<close>: \<open>ks\<close> is an order in which \<open>range m\<close>
  can yield the keys.
\<close>

definition rangeOrder :: "('k \<rightharpoonup> 'v) \<Rightarrow> 'k list \<Rightarrow> bool" where
  "rangeOrder m ks = (distinct ks \<and> set ks = dom m)"

text \<open>
  \<open>DotProduct\<close>, for a second table that is not nil. Its argument \<open>ks\<close> is the order in
  which \<open>for k := range t.mbs\<close> of line 279 yields the keys of the new map.
\<close>

definition DotProduct ::
  "string list \<Rightarrow> Table \<Rightarrow> Table \<Rightarrow> Store \<Rightarrow> error option \<times> Table \<times> Store"
where
  "DotProduct ks t2 t h =
     (if \<not> disjointBinding (mbsOf h t) (mbsOf h t2) then (Some DotProductNotDisjoint, t, h)
      else (let m = markKeys (mbsOf h t2) (markKeys (mbsOf h t) Map.empty);
                (r, h') = alloc m h
            in (None,
                t\<lparr>bs := ks, mbs := r,
                  data := concat (map (\<lambda>r1. map (\<lambda>r2. MergeRows [r1, r2]) (data t2)) (data t))\<rparr>,
                h')))"

text \<open>
  \<open>Limit\<close>. \<open>make([]Row, i, i)\<close> panics for a negative \<open>i\<close>, and \<open>len(t.data) > i\<close>
  holds for every negative \<open>i\<close>.
\<close>

definition Limit :: "64 word \<Rightarrow> Table \<Rightarrow> Table outcome" where
  "Limit i t =
     (if int (length (data t)) > sint i
      then (if sint i < 0 then Panics else Returns (t\<lparr>data := take (nat (sint i)) (data t)\<rparr>))
      else Returns t)"

text \<open>\<open>Sort\<close>: \<open>bySortConfig.Less(i, j)\<close> is \<open>rowLess\<close> of rows \<open>i\<close> and \<open>j\<close>.\<close>

definition Sort :: "SortConfig \<Rightarrow> Table \<Rightarrow> Table outcome" where
  "Sort cfg t =
     (case cfg of
        None \<Rightarrow> Returns t
      | Some c \<Rightarrow>
          (case insertionSort (\<lambda>ri rj. rowLess ri rj cfg) (data t) of
             Returns rows \<Rightarrow> Returns (t\<lparr>data := rows\<rparr>)
           | Panics \<Rightarrow> Panics
           | Exits \<Rightarrow> Exits))"

subsection \<open>Accumulators\<close>

text \<open>
  \<open>Accumulate\<close> takes an \<open>interface{}\<close>. The values of the model are a \<open>*Cell\<close> (what
  \<open>Reduce\<close> hands over: the content of \<open>r[a.InAlias]\<close>, nil when the row has no such
  key), a \<open>*literal.Literal\<close>, and any other value, kept as the text \<open>%v\<close> prints for it.
  The result is an \<open>int64\<close> or a \<open>float64\<close>.
\<close>

datatype iface = ICell "Cell option" | ILiteral "Literal option" | IOther string

datatype accval = AInt64 "64 word" | AFloat64 float64

text \<open>
  What the package needs from outside and the model leaves open: the sum of two
  \<open>float64\<close>, and \<open>literal.DefaultBuilder().Build\<close> for the types \<open>literal.Int64\<close> and
  \<open>literal.Float64\<close>.
\<close>

record Lib =
  float_add :: "float64 \<Rightarrow> float64 \<Rightarrow> float64"
  Build_Int64 :: "64 word \<Rightarrow> error + Literal"
  Build_Float64 :: "float64 \<Rightarrow> error + Literal"

text \<open>
  The four accumulators of the package, each with its fields: \<open>sumInt64{initialState,
  state}\<close>, \<open>sumFloat64{initialState, state}\<close>, \<open>countAcc{state}\<close> and
  \<open>countDistinctAcc{state map[string]int64}\<close>.
\<close>

datatype Accumulator =
    SumInt64 "64 word" "64 word"
  | SumFloat64 float64 float64
  | CountAcc "64 word"
  | CountDistinctAcc "string \<rightharpoonup> 64 word"

text \<open>
  \<open>fmt.Sprintf("%v", v)\<close>: \<open>*Cell\<close> and \<open>*literal.Literal\<close> have a \<open>String\<close> method,
  which \<open>%v\<close> calls; for a nil pointer it prints \<open><nil>\<close>.
\<close>

definition Sprintf_v :: "iface \<Rightarrow> string" where
  "Sprintf_v v =
     (case v of
        ICell None \<Rightarrow> ''<nil>''
      | ICell (Some c) \<Rightarrow> Cell_String c
      | ILiteral None \<Rightarrow> ''<nil>''
      | ILiteral (Some l) \<Rightarrow> Literal_String l
      | IOther s \<Rightarrow> s)"

text \<open>
  \<open>Accumulate\<close> returns the pair of results and the accumulator with its new state.
  For the two sums, \<open>l := v.(*literal.Literal)\<close> panics unless \<open>v\<close> is a
  \<open>*literal.Literal\<close>, and the call of \<open>l.Int64()\<close> on a nil \<open>l\<close> panics as well.
\<close>

fun Accumulate ::
  "Lib \<Rightarrow> Accumulator \<Rightarrow> iface \<Rightarrow> ((accval \<times> error option) \<times> Accumulator) outcome"
where
  "Accumulate lib (SumInt64 i s) v =
     (case v of
        ILiteral (Some l) \<Rightarrow>
          (case Literal_Int64 l of
             Inl e \<Rightarrow> Returns ((AInt64 s, Some e), SumInt64 i s)
           | Inr iv \<Rightarrow> Returns ((AInt64 (s + iv), None), SumInt64 i (s + iv)))
      | _ \<Rightarrow> Panics)"
| "Accumulate lib (SumFloat64 i s) v =
     (case v of
        ILiteral (Some l) \<Rightarrow>
          (case Literal_Float64 l of
             Inl e \<Rightarrow> Returns ((AFloat64 s, Some e), SumFloat64 i s)
           | Inr iv \<Rightarrow>
               Returns ((AFloat64 (float_add lib s iv), None), SumFloat64 i (float_add lib s iv)))
      | _ \<Rightarrow> Panics)"
| "Accumulate lib (CountAcc s) v = Returns ((AInt64 (s + 1), None), CountAcc (s + 1))"
| "Accumulate lib (CountDistinctAcc st) v =
     (let vs = Sprintf_v v;
          st' = st(vs \<mapsto> (case st vs of None \<Rightarrow> 0 | Some n \<Rightarrow> n) + 1)
      in Returns ((AInt64 (of_nat (len st')), None), CountDistinctAcc st'))"

fun Reset :: "Accumulator \<Rightarrow> Accumulator" where
  "Reset (SumInt64 i s) = SumInt64 i i"
| "Reset (SumFloat64 i s) = SumFloat64 i i"
| "Reset (CountAcc s) = CountAcc 0"
| "Reset (CountDistinctAcc st) = CountDistinctAcc Map.empty"

definition NewSumInt64LiteralAccumulator :: "64 word \<Rightarrow> Accumulator" where
  "NewSumInt64LiteralAccumulator s = SumInt64 s s"

definition NewSumFloat64LiteralAccumulator :: "float64 \<Rightarrow> Accumulator" where
  "NewSumFloat64LiteralAccumulator s = SumFloat64 s s"

definition NewCountAccumulator :: Accumulator where
  "NewCountAccumulator = CountAcc 0"

definition NewCountDistinctAccumulator :: Accumulator where
  "NewCountDistinctAccumulator = CountDistinctAcc Map.empty"

text \<open>
  The values a caller gets back when it feeds a list of values to an accumulator, one
  call of \<open>Accumulate\<close> after the other; the list ends where a call panics.
\<close>

fun feed :: "Lib \<Rightarrow> Accumulator \<Rightarrow> iface list \<Rightarrow> (accval \<times> error option) list" where
  "feed lib a [] = []"
| "feed lib a (v # vs) =
     (case Accumulate lib a v of
        Returns (res, a') \<Rightarrow> res # feed lib a' vs
      | Panics \<Rightarrow> []
      | Exits \<Rightarrow> [])"

subsection \<open>Reduce\<close>

text \<open>
  \<open>type AliasAccPair struct { InAlias string; OutAlias string; Acc Accumulator }\<close>;
  \<open>None\<close> is the nil accumulator. A pair of the model holds its accumulator by value:
  the pairs handed to \<open>Reduce\<close> are taken to hold different accumulator objects.
\<close>

record AliasAccPair =
  InAlias :: string
  OutAlias :: string
  Acc :: "Accumulator option"

text \<open>
  The nested map \<open>map[string]map[string]AliasAccPair\<close> that \<open>toMap\<close> builds is iterated
  over by \<open>range\<close>, so it is kept as a list of entries with different keys. \<open>assign\<close>
  is \<open>m[k] = v\<close>. The model visits the entries in the order of their first assignment;
  Go fixes no order.
\<close>

fun assign :: "'k \<Rightarrow> 'v \<Rightarrow> ('k \<times> 'v) list \<Rightarrow> ('k \<times> 'v) list" where
  "assign k v [] = [(k, v)]"
| "assign k v (e # m) = (if fst e = k then (k, v) # m else e # assign k v m)"

type_synonym aapMap = "(string \<times> (string \<times> AliasAccPair) list) list"

definition toMap :: "AliasAccPair list \<Rightarrow> aapMap" where
  "toMap aaps =
     foldl (\<lambda>resMap aap.
              (let m = (case map_of resMap (InAlias aap) of None \<Rightarrow> [] | Some m \<Rightarrow> m)
               in assign (InAlias aap) (assign (OutAlias aap) aap m) resMap))
       [] aaps"

text \<open>The pairs in the order the two nested \<open>range\<close> loops over the map visit them.\<close>

definition pairsOf :: "aapMap \<Rightarrow> AliasAccPair list" where
  "pairsOf acc = concat (map (\<lambda>e. map snd (snd e)) acc)"

type_synonym vaccsMap = "string \<times> string \<rightharpoonup> accval"

text \<open>
  Lines 634 to 648, for one row \<open>r\<close>: every pair with an accumulator accumulates
  \<open>r[a.InAlias]\<close>; an error ends the call. The pairs come back with the new states of
  their accumulators, and \<open>vaccs[a.InAlias][a.OutAlias]\<close> holds the value returned last.
\<close>

fun accumulateRow ::
  "Lib \<Rightarrow> Row \<Rightarrow> AliasAccPair list \<Rightarrow> vaccsMap \<Rightarrow>
     (error + AliasAccPair list \<times> vaccsMap) outcome"
where
  "accumulateRow lib r [] vaccs = Returns (Inr ([], vaccs))"
| "accumulateRow lib r (a # rest) vaccs =
     (case Acc a of
        None \<Rightarrow>
          (case accumulateRow lib r rest vaccs of
             Returns (Inr (rest', vaccs')) \<Rightarrow> Returns (Inr (a # rest', vaccs'))
           | other \<Rightarrow> other)
      | Some x \<Rightarrow>
          (case Accumulate lib x (ICell (r (InAlias a))) of
             Panics \<Rightarrow> Panics
           | Exits \<Rightarrow> Exits
           | Returns ((av, Some e), x') \<Rightarrow> Returns (Inl e)
           | Returns ((av, None), x') \<Rightarrow>
               (case accumulateRow lib r rest (vaccs((InAlias a, OutAlias a) \<mapsto> av)) of
                  Returns (Inr (rest', vaccs')) \<Rightarrow>
                    Returns (Inr (a\<lparr>Acc := Some x'\<rparr> # rest', vaccs'))
                | other \<Rightarrow> other)))"

fun accumulateRange ::
  "Lib \<Rightarrow> Row list \<Rightarrow> AliasAccPair list \<Rightarrow> vaccsMap \<Rightarrow>
     (error + AliasAccPair list \<times> vaccsMap) outcome"
where
  "accumulateRange lib [] pairs vaccs = Returns (Inr (pairs, vaccs))"
| "accumulateRange lib (r # rng) pairs vaccs =
     (case accumulateRow lib r pairs vaccs of
        Returns (Inr (pairs', vaccs')) \<Rightarrow> accumulateRange lib rng pairs' vaccs'
      | other \<Rightarrow> other)"

text \<open>
  Lines 655 to 675: the cell written to \<open>newRow[app.OutAlias]\<close> for the binding \<open>b\<close> with
  cell \<open>v\<close> in the first row of the range, or the error returned.
\<close>

definition literalCell :: "Literal \<Rightarrow> Cell" where
  "literalCell l =
     \<lparr>Cell_S = None, Cell_N = None, Cell_P = None, Cell_L = Some l, Cell_T = None\<rparr>"

definition outputCell :: "Lib \<Rightarrow> vaccsMap \<Rightarrow> string \<Rightarrow> Cell \<Rightarrow> AliasAccPair \<Rightarrow> error + Cell" where
  "outputCell lib vaccs b v app =
     (case Acc app of
        None \<Rightarrow> Inr v
      | Some x \<Rightarrow>
          (case vaccs (InAlias app, OutAlias app) of
             Some (AInt64 n) \<Rightarrow>
               (case Build_Int64 lib n of Inl e \<Rightarrow> Inl e | Inr l \<Rightarrow> Inr (literalCell l))
           | Some (AFloat64 f) \<Rightarrow>
               (case Build_Float64 lib f of Inl e \<Rightarrow> Inl e | Inr l \<Rightarrow> Inr (literalCell l))
           | None \<Rightarrow> Inl (UnknownAccValue b)))"

text \<open>
  Lines 653 and 654: the loops \<open>for b, v := range rng[0] { for _, app := range acc[b]\<close>
  visit every pair whose input binding the first row carries, with the cell of that
  binding. Both range over maps, so Go fixes no order among these pairs; the model takes
  them in the order of \<open>acc\<close>.
\<close>

definition visited :: "Row \<Rightarrow> aapMap \<Rightarrow> (string \<times> Cell \<times> AliasAccPair) list" where
  "visited first acc =
     concat (map (\<lambda>e. case first (fst e) of
                         None \<Rightarrow> []
                       | Some v \<Rightarrow> map (\<lambda>oa. (fst e, v, snd oa)) (snd e)) acc)"

fun fillRow :: "Lib \<Rightarrow> vaccsMap \<Rightarrow> (string \<times> Cell \<times> AliasAccPair) list \<Rightarrow> Row \<Rightarrow> error + Row" where
  "fillRow lib vaccs [] newRow = Inr newRow"
| "fillRow lib vaccs ((b, v, app) # rest) newRow =
     (case outputCell lib vaccs b v app of
        Inl e \<Rightarrow> Inl e
      | Inr c \<Rightarrow> fillRow lib vaccs rest (newRow(OutAlias app \<mapsto> c)))"

text \<open>
  \<open>fullGroupRangeReduce\<close> for indices that are not negative. \<open>t.data[i:j]\<close> panics
  when \<open>j\<close> is beyond the rows, and \<open>rng[0]\<close> panics on an empty range. Every
  accumulator is reset before it is used, so the state it had before the call does not
  show in the result; the states after the call are not handed back.
\<close>

definition fullGroupRangeReduce ::
  "Lib \<Rightarrow> nat \<Rightarrow> nat \<Rightarrow> aapMap \<Rightarrow> Table \<Rightarrow> (error + Row) outcome"
where
  "fullGroupRangeReduce lib i j acc t =
     (if i > j then Returns (Inl (EmptyRange i j))
      else if j > length (data t) then Panics
      else (let rng = take (j - i) (drop i (data t));
                pairs = map (\<lambda>a. a\<lparr>Acc := map_option Reset (Acc a)\<rparr>) (pairsOf acc)
            in case accumulateRange lib rng pairs Map.empty of
                 Panics \<Rightarrow> Panics
               | Exits \<Rightarrow> Exits
               | Returns (Inl e) \<Rightarrow> Returns (Inl e)
               | Returns (Inr (pairs', vaccs)) \<Rightarrow>
                   (case rng of
                      [] \<Rightarrow> Panics
                    | first # others \<Rightarrow>
                        (case fillRow lib vaccs (visited first acc) Map.empty of
                           Inl e \<Rightarrow> Returns (Inl e)
                         | Inr newRow \<Rightarrow>
                             if newRow = Map.empty then Returns (Inl EmptyReducedRow)
                             else Returns (Inr newRow)))))"

text \<open>Lines 706 to 723 of \<open>Reduce\<close>: the tests of the configuration.\<close>

definition reduceCheck :: "aapMap \<Rightarrow> Table \<Rightarrow> Store \<Rightarrow> error option" where
  "reduceCheck maaps t h =
     (if length (bs t) \<noteq> length maaps then Some CannotProjectBindings
      else (case find (\<lambda>b. map_of maaps b = None) (bs t) of
              Some b \<Rightarrow> Some (MissingBindingAlias b)
            | None \<Rightarrow>
                (case find (\<lambda>b. mbsOf h t b = None) (map fst maaps) of
                   Some b \<Rightarrow> Some (UnknownReducerBinding b)
                 | None \<Rightarrow>
                     if length (map fst maaps) \<noteq> length (bs t)
                     then Some InvalidReduceConfiguration else None)))"

text \<open>
  The closure \<open>id\<close> of \<open>Reduce\<close>: \<open>r[c.Binding].String()\<close> dereferences a nil pointer,
  and panics, when the row does not carry the binding.
\<close>

fun groupKey :: "SortEntry list \<Rightarrow> Row \<Rightarrow> string outcome" where
  "groupKey [] r = Returns ''''"
| "groupKey (c # cs) r =
     (case r (Binding c) of
        None \<Rightarrow> Panics
      | Some cell \<Rightarrow>
          (case groupKey cs r of
             Returns res \<Rightarrow> Returns (Cell_String cell @ res)
           | Panics \<Rightarrow> Panics
           | Exits \<Rightarrow> Exits))"

text \<open>
  The loop of lines 738 to 756 over the rows not yet visited, with the index \<open>idx\<close> of
  the next row and the variables \<open>last\<close> (here \<open>lastKey\<close>), \<open>lastIdx\<close> and \<open>newData\<close>. It ends with the
  error of a group, or with \<open>lastIdx\<close> and \<open>newData\<close>.
\<close>

fun groupLoop ::
  "Lib \<Rightarrow> SortEntry list \<Rightarrow> aapMap \<Rightarrow> Table \<Rightarrow> Row list \<Rightarrow> nat \<Rightarrow> string \<Rightarrow> nat \<Rightarrow> Row list \<Rightarrow>
     (error + nat \<times> Row list) outcome"
where
  "groupLoop lib cfg maaps t [] idx lastKey lastIdx newData = Returns (Inr (lastIdx, newData))"
| "groupLoop lib cfg maaps t (r # rest) idx lastKey lastIdx newData =
     (case groupKey cfg r of
        Panics \<Rightarrow> Panics
      | Exits \<Rightarrow> Exits
      | Returns current \<Rightarrow>
          if lastKey = '''' then groupLoop lib cfg maaps t rest (Suc idx) current idx newData
          else if lastKey = current
          then groupLoop lib cfg maaps t rest (Suc idx) lastKey lastIdx newData
          else (case fullGroupRangeReduce lib lastIdx idx maaps t of
                  Panics \<Rightarrow> Panics
                | Exits \<Rightarrow> Exits
                | Returns (Inl e) \<Rightarrow> Returns (Inl e)
                | Returns (Inr nr) \<Rightarrow>
                    groupLoop lib cfg maaps t rest (Suc idx) current idx (newData @ [nr])))"

text \<open>Lines 764 to 769: the output aliases become the bindings of the table.\<close>

fun outBindings :: "AliasAccPair list \<Rightarrow> Table \<Rightarrow> Store \<Rightarrow> Table \<times> Store" where
  "outBindings [] t h = (t, h)"
| "outBindings (aap # rest) t h =
     outBindings rest
       (if maps h (mbs t) (OutAlias aap) \<noteq> Some True then t\<lparr>bs := bs t @ [OutAlias aap]\<rparr> else t)
       (h\<lparr>maps := (maps h)(mbs t := (maps h (mbs t))(OutAlias aap \<mapsto> True))\<rparr>)"

text \<open>
  \<open>Reduce\<close>. The table is sorted in place before the groups are folded, so the table a
  failed call leaves behind is the sorted one.
\<close>

definition Reduce ::
  "Lib \<Rightarrow> SortConfig \<Rightarrow> AliasAccPair list \<Rightarrow> Table \<Rightarrow> Store \<Rightarrow>
     (error option \<times> Table \<times> Store) outcome"
where
  "Reduce lib cfg aaps t h =
     (let maaps = toMap aaps in
      case reduceCheck maaps t h of
        Some e \<Rightarrow> Returns (Some e, t, h)
      | None \<Rightarrow>
          if NumRows t = 0 then Returns (None, t, h)
          else (case Sort cfg t of
                  Panics \<Rightarrow> Panics
                | Exits \<Rightarrow> Exits
                | Returns t1 \<Rightarrow>
                    (case groupLoop lib (case cfg of None \<Rightarrow> [] | Some c \<Rightarrow> c) maaps t1
                            (data t1) 0 '''' 0 [] of
                       Panics \<Rightarrow> Panics
                     | Exits \<Rightarrow> Exits
                     | Returns (Inl e) \<Rightarrow> Returns (Some e, t1, h)
                     | Returns (Inr (lastIdx, newData)) \<Rightarrow>
                         (case fullGroupRangeReduce lib lastIdx (length (data t1)) maaps t1 of
                            Panics \<Rightarrow> Panics
                          | Exits \<Rightarrow> Exits
                          | Returns (Inl e) \<Rightarrow> Returns (Some e, t1, h)
                          | Returns (Inr nr) \<Rightarrow>
                              (let (r, h1) = alloc Map.empty h;
                                   (t2, h2) = outBindings aaps (t1\<lparr>bs := [], mbs := r\<rparr>) h1
                               in Returns (None, t2\<lparr>data := newData @ [nr]\<rparr>, h2))))))"

subsection \<open>The agreement of the binding list and the binding map\<close>

text \<open>
  The list \<open>bs\<close> of a table has no repetition, and the map behind \<open>mbs\<close> holds exactly
  the names of \<open>bs\<close>.
\<close>

definition inSync :: "Store \<Rightarrow> Table \<Rightarrow> bool" where
  "inSync h t =
     (distinct (bs t) \<and> mbsOf h t = (\<lambda>b. if b \<in> set (bs t) then Some True else None))"

subsection \<open>Values used in the examples\<close>

definition textCell :: "string \<Rightarrow> Cell" where
  "textCell s = \<lparr>Cell_S = Some s, Cell_N = None, Cell_P = None, Cell_L = None, Cell_T = None\<rparr>"

definition nodeCell :: "string \<Rightarrow> Cell" where
  "nodeCell s =
     \<lparr>Cell_S = None, Cell_N = Some (Node s), Cell_P = None, Cell_L = None, Cell_T = None\<rparr>"

definition asc :: "string \<Rightarrow> SortEntry" where
  "asc b = \<lparr>Binding = b, Desc = False\<rparr>"

definition rowX :: "string \<Rightarrow> Row" where
  "rowX s = [''x'' \<mapsto> textCell s]"

definition fiveRows :: Table where
  "fiveRows =
     \<lparr>bs = [''x''], mbs = 0, data = [rowX ''a'', rowX ''b'', rowX ''c'', rowX ''d'', rowX ''e'']\<rparr>"




text \<open>
  Two tables with the bindings \<open>a\<close> and \<open>b\<close>. The rows of \<open>tableA\<close> and \<open>tableB\<close>
  also carry a key \<open>z\<close> that is no binding of their table, which \<open>AddRow\<close> does not
  refuse; the rows of \<open>validA\<close> and \<open>validB\<close> carry bindings of their table only.
\<close>

definition storeAB :: Store where
  "storeAB =
     \<lparr>maps = (\<lambda>r. Map.empty)(0 := [''a'' \<mapsto> True], 1 := [''b'' \<mapsto> True]), fresh = 2\<rparr>"

definition tableA :: Table where
  "tableA =
     \<lparr>bs = [''a''], mbs = 0, data = [[''a'' \<mapsto> textCell ''1'', ''z'' \<mapsto> textCell ''2'']]\<rparr>"

definition tableB :: Table where
  "tableB =
     \<lparr>bs = [''b''], mbs = 1, data = [[''b'' \<mapsto> textCell ''3'', ''z'' \<mapsto> textCell ''4'']]\<rparr>"

definition validA :: Table where
  "validA = \<lparr>bs = [''a''], mbs = 0, data = [[''a'' \<mapsto> textCell ''1'']]\<rparr>"

definition validB :: Table where
  "validB =
     \<lparr>bs = [''b''], mbs = 1, data = [[''b'' \<mapsto> textCell ''3''], [''b'' \<mapsto> textCell ''4'']]\<rparr>"

text \<open>
  A table with the binding \<open>x\<close> whose second row does not carry \<open>x\<close>, a reduction that
  keeps \<open>x\<close> under its name, and functions for what the model leaves open.
\<close>

definition storeX :: Store where
  "storeX = \<lparr>maps = (\<lambda>r. Map.empty)(0 := [''x'' \<mapsto> True]), fresh = 1\<rparr>"

definition missingX :: Table where
  "missingX =
     \<lparr>bs = [''x''], mbs = 0, data = [[''x'' \<mapsto> textCell ''a''], [''y'' \<mapsto> textCell ''b'']]\<rparr>"

definition keepX :: "AliasAccPair list" where
  "keepX = [\<lparr>InAlias = ''x'', OutAlias = ''x'', Acc = None\<rparr>]"

definition builtLiteral :: "64 word \<Rightarrow> Literal" where
  "builtLiteral n =
     \<lparr>Literal_String = ''built'', Literal_ToComparableString = ''built'',
      Literal_Int64 = Inr n, Literal_Float64 = Inl LiteralError\<rparr>"

definition exampleLib :: Lib where
  "exampleLib =
     \<lparr>float_add = (\<lambda>x y. x), Build_Int64 = (\<lambda>n. Inr (builtLiteral n)),
      Build_Float64 = (\<lambda>f. Inl LiteralError)\<rparr>"

text \<open>
  A table with the binding \<open>g\<close> whose two rows carry \<open>x\<close> only, in descending order,
  and a reduction that keeps \<open>g\<close> under its name.
\<close>

definition storeG :: Store where
  "storeG = \<lparr>maps = (\<lambda>r. Map.empty)(0 := [''g'' \<mapsto> True]), fresh = 1\<rparr>"

definition unsortedX :: Table where
  "unsortedX =
     \<lparr>bs = [''g''], mbs = 0, data = [[''x'' \<mapsto> textCell ''b''], [''x'' \<mapsto> textCell ''a'']]\<rparr>"

definition keepG :: "AliasAccPair list" where
  "keepG = [\<lparr>InAlias = ''g'', OutAlias = ''g'', Acc = None\<rparr>]"

text \<open>
  The table of the reduction example: rows \<open>(g=1, val=3)\<close>, \<open>(g=1, val=4)\<close>,
  \<open>(g=2, val=5)\<close> of integer literals, with the pairs \<open>g\<close> to \<open>g\<close> without
  accumulator and \<open>val\<close> to \<open>total\<close> with the integer sum from 0 (\<open>sumPairs\<close>) or with
  the count (\<open>countPairs\<close>).
\<close>

definition intCell :: "string \<Rightarrow> 64 word \<Rightarrow> Cell" where
  "intCell s n =
     literalCell \<lparr>Literal_String = s, Literal_ToComparableString = s, Literal_Int64 = Inr n,
       Literal_Float64 = Inl LiteralError\<rparr>"

definition storeGV :: Store where
  "storeGV = \<lparr>maps = (\<lambda>r. Map.empty)(0 := [''g'' \<mapsto> True, ''val'' \<mapsto> True]), fresh = 1\<rparr>"

definition groupsT :: Table where
  "groupsT =
     \<lparr>bs = [''g'', ''val''], mbs = 0,
      data = [[''g'' \<mapsto> intCell ''1'' 1, ''val'' \<mapsto> intCell ''3'' 3],
              [''g'' \<mapsto> intCell ''1'' 1, ''val'' \<mapsto> intCell ''4'' 4],
              [''g'' \<mapsto> intCell ''2'' 2, ''val'' \<mapsto> intCell ''5'' 5]]\<rparr>"

definition sumPairs :: "AliasAccPair list" where
  "sumPairs =
     [\<lparr>InAlias = ''g'', OutAlias = ''g'', Acc = None\<rparr>,
      \<lparr>InAlias = ''val'', OutAlias = ''total'', Acc = Some (NewSumInt64LiteralAccumulator 0)\<rparr>]"

definition countPairs :: "AliasAccPair list" where
  "countPairs =
     [\<lparr>InAlias = ''g'', OutAlias = ''g'', Acc = None\<rparr>,
      \<lparr>InAlias = ''val'', OutAlias = ''total'', Acc = Some NewCountAccumulator\<rparr>]"

text \<open>
  The store before any table is made, and what two calls of \<open>New\<close> make from it: a
  table without bindings and a table with the binding \<open>a\<close>.
\<close>

definition emptyStore :: Store where
  "emptyStore = \<lparr>maps = (\<lambda>r. Map.empty), fresh = 0\<rparr>"

definition adopter :: Table where
  "adopter = \<lparr>bs = [], mbs = 0, data = []\<rparr>"

definition donor :: Table where
  "donor = \<lparr>bs = [''a''], mbs = 1, data = []\<rparr>"

definition twoMaps :: Store where
  "twoMaps = \<lparr>maps = (\<lambda>r. Map.empty)(1 := [''a'' \<mapsto> True]), fresh = 2\<rparr>"

section \<open>Properties\<close>

subsection \<open>The comparison of two rows\<close>

lemma stringLess_empty: "stringLess '''' '''' d = 0"
  by (simp add: stringLess_def TrimSpace_def)

lemma ifBoth_skip: "x = None \<or> y = None \<Longrightarrow> ifBoth x y f ss = ss"
  by (cases x; cases y; simp add: ifBoth_def)

lemma comparedStrings_mixed:
  assumes "Cell_S ci = None \<or> Cell_S cj = None"
    and "Cell_N ci = None \<or> Cell_N cj = None"
    and "Cell_P ci = None \<or> Cell_P cj = None"
    and "Cell_L ci = None \<or> Cell_L cj = None"
    and "Cell_T ci = None \<or> Cell_T cj = None"
  shows "comparedStrings ci cj = ('''', '''')"
  unfolding comparedStrings_def
  by (simp only: ifBoth_skip [OF assms(1)] ifBoth_skip [OF assms(2)] ifBoth_skip [OF assms(3)]
      ifBoth_skip [OF assms(4)] ifBoth_skip [OF assms(5)])

text \<open>
  C10. Two rows are compared at an entry of the SortConfig, both rows carry the entry's
  binding, and for no kind of value (string, node, predicate, literal, time) do both
  cells hold one. Then the two compared strings stay empty, the rows are equal at this
  key, and \<open>rowLess\<close> answers false when the entry is the last one and otherwise what
  the remaining entries answer.
\<close>

theorem rowLess_mixed_kinds_tie:
  assumes "ri (Binding c) = Some ci" and "rj (Binding c) = Some cj"
    and "Cell_S ci = None \<or> Cell_S cj = None"
    and "Cell_N ci = None \<or> Cell_N cj = None"
    and "Cell_P ci = None \<or> Cell_P cj = None"
    and "Cell_L ci = None \<or> Cell_L cj = None"
    and "Cell_T ci = None \<or> Cell_T cj = None"
  shows "rowLess ri rj (Some (c # cs)) =
           (if cs = [] then Returns False else rowLess ri rj (Some cs))"
  using assms(1,2) comparedStrings_mixed [OF assms(3-7)]
  by (simp add: stringLess_empty)

text \<open>
  A string cell against a node cell under the key \<open>k\<close>: a tie when \<open>k\<close> is the only
  key, and decided by \<open>v\<close> when \<open>v\<close> is the next key.
\<close>

theorem rowLess_mixed_kinds_tie_witness:
  "rowLess [''k'' \<mapsto> textCell ''b'', ''v'' \<mapsto> textCell ''1'']
           [''k'' \<mapsto> nodeCell ''a'', ''v'' \<mapsto> textCell ''2'']
           (Some [asc ''k'']) = Returns False
   \<and> rowLess [''k'' \<mapsto> textCell ''b'', ''v'' \<mapsto> textCell ''1'']
           [''k'' \<mapsto> nodeCell ''a'', ''v'' \<mapsto> textCell ''2'']
           (Some [asc ''k'', asc ''v'']) = Returns True"
  using rowLess_mixed_kinds_tie [of "[''k'' \<mapsto> textCell ''b'', ''v'' \<mapsto> textCell ''1'']"
      "asc ''k''" "textCell ''b''"
      "[''k'' \<mapsto> nodeCell ''a'', ''v'' \<mapsto> textCell ''2'']" "nodeCell ''a''" "[]"]
    rowLess_mixed_kinds_tie [of "[''k'' \<mapsto> textCell ''b'', ''v'' \<mapsto> textCell ''1'']"
      "asc ''k''" "textCell ''b''"
      "[''k'' \<mapsto> nodeCell ''a'', ''v'' \<mapsto> textCell ''2'']" "nodeCell ''a''"
      "[asc ''v'']"]
  by (simp add: textCell_def nodeCell_def asc_def comparedStrings_def ifBoth_def
      stringLess_def TrimSpace_def isSpace_def)

subsection \<open>The count of distinct values\<close>

lemma feed_countDistinct:
  "feed lib (CountDistinctAcc st) vs =
     map (\<lambda>k. (AInt64 (of_nat (card (dom st \<union> Sprintf_v ` set (take (Suc k) vs)))), None))
       [0..<length vs]"
proof (induction vs arbitrary: st)
  case Nil
  show ?case by simp
next
  case (Cons v vs)
  define st' where "st' = st(Sprintf_v v \<mapsto> (case st (Sprintf_v v) of None \<Rightarrow> 0 | Some n \<Rightarrow> n) + 1)"
  have dom': "dom st' = insert (Sprintf_v v) (dom st)"
    by (simp add: st'_def)
  have step: "feed lib (CountDistinctAcc st) (v # vs) =
      (AInt64 (of_nat (card (dom st'))), None) # feed lib (CountDistinctAcc st') vs"
    by (simp add: Let_def len_def st'_def)
  have idx: "[0..<Suc (length vs)] = 0 # map Suc [0..<length vs]"
    by (simp add: upt_conv_Cons map_Suc_upt del: upt_Suc)
  have "feed lib (CountDistinctAcc st) (v # vs) =
      (AInt64 (of_nat (card (dom st'))), None) #
      map (\<lambda>k. (AInt64 (of_nat (card (dom st' \<union> Sprintf_v ` set (take (Suc k) vs)))), None))
        [0..<length vs]"
    by (simp only: step Cons.IH)
  also have "\<dots> = map (\<lambda>k. (AInt64 (of_nat (card (dom st \<union> Sprintf_v ` set (take (Suc k) (v # vs))))),
      None)) [0..<length (v # vs)]"
    by (simp add: idx dom' comp_def del: upt_Suc)
  finally show ?case .
qed

text \<open>
  C8. After a \<open>Reset\<close> of a count-distinct accumulator, call number \<open>k\<close> of
  \<open>Accumulate\<close> (counted from 0) returns, with a nil error, the number of different
  texts that \<open>%v\<close> prints for the values of the calls 0 to \<open>k\<close>: the running count.
  Values printed as x, y, x, z give 1, 2, 2, 3.
\<close>

theorem countDistinct_running_count:
  "feed lib (Reset (CountDistinctAcc st)) vs =
     map (\<lambda>k. (AInt64 (of_nat (card (Sprintf_v ` set (take (Suc k) vs)))), None)) [0..<length vs]
   \<and> feed lib (Reset (CountDistinctAcc st)) [IOther ''x'', IOther ''y'', IOther ''x'', IOther ''z'']
       = [(AInt64 1, None), (AInt64 2, None), (AInt64 2, None), (AInt64 3, None)]"
proof
  show "feed lib (Reset (CountDistinctAcc st)) vs =
     map (\<lambda>k. (AInt64 (of_nat (card (Sprintf_v ` set (take (Suc k) vs)))), None)) [0..<length vs]"
    by (simp add: feed_countDistinct del: upt_Suc)
  show "feed lib (Reset (CountDistinctAcc st)) [IOther ''x'', IOther ''y'', IOther ''x'', IOther ''z'']
       = [(AInt64 1, None), (AInt64 2, None), (AInt64 2, None), (AInt64 3, None)]"
    by (simp add: Sprintf_v_def len_def Let_def card_insert_if)
qed

subsection \<open>Limit\<close>

text \<open>
  C7, as the code has it. \<open>Limit(n)\<close> with \<open>0 \<le> n\<close> below the number of rows keeps the
  first \<open>n\<close> rows, in their order, and nothing else of the table changes; with \<open>n\<close> at
  least the number of rows the table stays as it is. \<open>Limit\<close> has no error result:
  a negative \<open>n\<close> makes \<open>make([]Row, n, n)\<close> panic.
\<close>

theorem Limit_cases:
  "(0 \<le> sint n \<and> sint n < int (length (data t)) \<longrightarrow>
      Limit n t = Returns (t\<lparr>data := take (nat (sint n)) (data t)\<rparr>))
   \<and> (int (length (data t)) \<le> sint n \<longrightarrow> Limit n t = Returns t)
   \<and> (sint n < 0 \<longrightarrow> Limit n t = Panics)"
  by (simp add: Limit_def)

theorem Limit_cases_witness:
  "Limit 2 fiveRows = Returns (fiveRows\<lparr>data := [rowX ''a'', rowX ''b'']\<rparr>)
   \<and> Limit 10 fiveRows = Returns fiveRows
   \<and> Limit (- 3) fiveRows = Panics"
  using Limit_cases [of 2 fiveRows] Limit_cases [of 10 fiveRows] Limit_cases [of "- 3" fiveRows]
  by (simp add: fiveRows_def)

text \<open>The claim asks for a validation error on a negative \<open>n\<close>; the call panics.\<close>

theorem Limit_negative_panics_counterexample:
  "Limit (- 1) fiveRows = Panics"
  by (simp add: Limit_def)

subsection \<open>ProjectBindings\<close>





subsection \<open>DotProduct\<close>

lemma MergeRows_pair: "MergeRows [r1, r2] = r1 ++ r2"
  by (simp add: MergeRows_def)

lemma DotProduct_disjoint:
  "disjointBinding (mbsOf h t) (mbsOf h t2) \<Longrightarrow>
   DotProduct ks t2 t h =
     (None,
      t\<lparr>bs := ks, mbs := fresh h,
        data := concat (map (\<lambda>r1. map (\<lambda>r2. r1 ++ r2) (data t2)) (data t))\<rparr>,
      h\<lparr>maps := (maps h)(fresh h := markKeys (mbsOf h t2) (markKeys (mbsOf h t) Map.empty)),
        fresh := Suc (fresh h)\<rparr>)"
  by (simp add: DotProduct_def alloc_def MergeRows_pair Let_def)

lemma DotProduct_overlap:
  "\<not> disjointBinding (mbsOf h t) (mbsOf h t2) \<Longrightarrow>
   DotProduct ks t2 t h = (Some DotProductNotDisjoint, t, h)"
  by (simp add: DotProduct_def)

lemma length_cross: "length (concat (map (\<lambda>r1. map (f r1) ys) xs)) = length xs * length ys"
  by (induction xs) simp_all

lemma no_common_key:
  assumes "disjointBinding m1 m2"
    and "\<forall>k \<in> dom r1. m1 k = Some True" and "\<forall>k \<in> dom r2. m2 k = Some True"
  shows "dom r1 \<inter> dom r2 = {}"
proof (rule ccontr)
  assume "dom r1 \<inter> dom r2 \<noteq> {}"
  then obtain k where k: "k \<in> dom r1" "k \<in> dom r2" by blast
  with assms(2,3) have "m1 k = Some True" "m2 k = Some True" by blast+
  with assms(1) show False by (auto simp: disjointBinding_def)
qed

text \<open>
  C5, as the code has it. When the binding sets are disjoint, \<open>DotProduct\<close> succeeds and
  the rows become the merges \<open>r1 ++ r2\<close> of every row \<open>r1\<close> of the receiver with every
  row \<open>r2\<close> of the other table, row by row of the receiver: \<open>n1 * n2\<close> rows. Where the
  rows of each table carry bindings of their own table only, every merged row holds every
  cell of both rows. When the binding sets overlap, the call returns an error and leaves
  table and store as they were.
\<close>

theorem DotProduct_rows:
  "(disjointBinding (mbsOf h t) (mbsOf h t2) \<longrightarrow>
      (\<exists>t' h'. DotProduct ks t2 t h = (None, t', h')
         \<and> data t' = concat (map (\<lambda>r1. map (\<lambda>r2. r1 ++ r2) (data t2)) (data t))
         \<and> length (data t') = length (data t) * length (data t2)
         \<and> ((\<forall>r \<in> set (data t). \<forall>k \<in> dom r. mbsOf h t k = Some True)
              \<and> (\<forall>r \<in> set (data t2). \<forall>k \<in> dom r. mbsOf h t2 k = Some True) \<longrightarrow>
            (\<forall>r1 \<in> set (data t). \<forall>r2 \<in> set (data t2).
               r1 \<subseteq>\<^sub>m r1 ++ r2 \<and> r2 \<subseteq>\<^sub>m r1 ++ r2))))
   \<and> (\<not> disjointBinding (mbsOf h t) (mbsOf h t2) \<longrightarrow>
        DotProduct ks t2 t h = (Some DotProductNotDisjoint, t, h))"
proof (intro conjI impI)
  assume d: "disjointBinding (mbsOf h t) (mbsOf h t2)"
  let ?t' = "t\<lparr>bs := ks, mbs := fresh h,
        data := concat (map (\<lambda>r1. map (\<lambda>r2. r1 ++ r2) (data t2)) (data t))\<rparr>"
  let ?h' = "h\<lparr>maps := (maps h)(fresh h := markKeys (mbsOf h t2) (markKeys (mbsOf h t) Map.empty)),
        fresh := Suc (fresh h)\<rparr>"
  have valid: "\<forall>r1 \<in> set (data t). \<forall>r2 \<in> set (data t2). r1 \<subseteq>\<^sub>m r1 ++ r2 \<and> r2 \<subseteq>\<^sub>m r1 ++ r2"
    if v: "(\<forall>r \<in> set (data t). \<forall>k \<in> dom r. mbsOf h t k = Some True)
              \<and> (\<forall>r \<in> set (data t2). \<forall>k \<in> dom r. mbsOf h t2 k = Some True)"
  proof (intro ballI)
    fix r1 r2 assume r: "r1 \<in> set (data t)" "r2 \<in> set (data t2)"
    from v r(1) have "\<forall>k \<in> dom r1. mbsOf h t k = Some True" by simp
    moreover from v r(2) have "\<forall>k \<in> dom r2. mbsOf h t2 k = Some True" by simp
    ultimately have "\<forall>k \<in> dom r1. mbsOf h t k = Some True" "\<forall>k \<in> dom r2. mbsOf h t2 k = Some True" by -
    then have "dom r1 \<inter> dom r2 = {}" by (rule no_common_key [OF d])
    then have "r1 ++ r2 = r2 ++ r1" by (rule map_add_comm)
    moreover have "r1 \<subseteq>\<^sub>m r2 ++ r1" "r2 \<subseteq>\<^sub>m r1 ++ r2" by (rule map_le_map_add)+
    ultimately show "r1 \<subseteq>\<^sub>m r1 ++ r2 \<and> r2 \<subseteq>\<^sub>m r1 ++ r2" by simp
  qed
  have eq: "DotProduct ks t2 t h = (None, ?t', ?h')"
    by (rule DotProduct_disjoint [OF d])
  have rows: "data ?t' = concat (map (\<lambda>r1. map (\<lambda>r2. r1 ++ r2) (data t2)) (data t))"
    by simp
  have size: "length (data ?t') = length (data t) * length (data t2)"
    by (simp add: length_cross)
  show "\<exists>t' h'. DotProduct ks t2 t h = (None, t', h')
         \<and> data t' = concat (map (\<lambda>r1. map (\<lambda>r2. r1 ++ r2) (data t2)) (data t))
         \<and> length (data t') = length (data t) * length (data t2)
         \<and> ((\<forall>r \<in> set (data t). \<forall>k \<in> dom r. mbsOf h t k = Some True)
              \<and> (\<forall>r \<in> set (data t2). \<forall>k \<in> dom r. mbsOf h t2 k = Some True) \<longrightarrow>
            (\<forall>r1 \<in> set (data t). \<forall>r2 \<in> set (data t2).
               r1 \<subseteq>\<^sub>m r1 ++ r2 \<and> r2 \<subseteq>\<^sub>m r1 ++ r2))"
  proof (rule exI [of _ ?t'], rule exI [of _ ?h'], intro conjI impI)
    show "DotProduct ks t2 t h = (None, ?t', ?h')" by (rule eq)
    show "data ?t' = concat (map (\<lambda>r1. map (\<lambda>r2. r1 ++ r2) (data t2)) (data t))" by (rule rows)
    show "length (data ?t') = length (data t) * length (data t2)" by (rule size)
    assume "(\<forall>r \<in> set (data t). \<forall>k \<in> dom r. mbsOf h t k = Some True)
              \<and> (\<forall>r \<in> set (data t2). \<forall>k \<in> dom r. mbsOf h t2 k = Some True)"
    then show "\<forall>r1 \<in> set (data t). \<forall>r2 \<in> set (data t2). r1 \<subseteq>\<^sub>m r1 ++ r2 \<and> r2 \<subseteq>\<^sub>m r1 ++ r2"
      by (rule valid)
  qed
next
  assume "\<not> disjointBinding (mbsOf h t) (mbsOf h t2)"
  then show "DotProduct ks t2 t h = (Some DotProductNotDisjoint, t, h)"
    by (rule DotProduct_overlap)
qed

theorem DotProduct_rows_witness:
  "(\<exists>t' h'. DotProduct [''a'', ''b''] validB validA storeAB = (None, t', h')
       \<and> data t' = concat (map (\<lambda>r1. map (\<lambda>r2. r1 ++ r2) (data validB)) (data validA))
       \<and> length (data t') = length (data validA) * length (data validB)
       \<and> (\<forall>r1 \<in> set (data validA). \<forall>r2 \<in> set (data validB).
             r1 \<subseteq>\<^sub>m r1 ++ r2 \<and> r2 \<subseteq>\<^sub>m r1 ++ r2))
   \<and> length (data validA) * length (data validB) = 2
   \<and> DotProduct [''a''] validA validA storeAB = (Some DotProductNotDisjoint, validA, storeAB)"
proof (intro conjI)
  have d: "disjointBinding (mbsOf storeAB validA) (mbsOf storeAB validB)"
    by (simp add: disjointBinding_def mbsOf_def storeAB_def validA_def validB_def)
  have v: "(\<forall>r \<in> set (data validA). \<forall>k \<in> dom r. mbsOf storeAB validA k = Some True)
      \<and> (\<forall>r \<in> set (data validB). \<forall>k \<in> dom r. mbsOf storeAB validB k = Some True)"
    by (simp add: mbsOf_def storeAB_def validA_def validB_def)
  have c: "disjointBinding (mbsOf storeAB validA) (mbsOf storeAB validB) \<longrightarrow>
      (\<exists>t' h'. DotProduct [''a'', ''b''] validB validA storeAB = (None, t', h')
         \<and> data t' = concat (map (\<lambda>r1. map (\<lambda>r2. r1 ++ r2) (data validB)) (data validA))
         \<and> length (data t') = length (data validA) * length (data validB)
         \<and> ((\<forall>r \<in> set (data validA). \<forall>k \<in> dom r. mbsOf storeAB validA k = Some True)
              \<and> (\<forall>r \<in> set (data validB). \<forall>k \<in> dom r. mbsOf storeAB validB k = Some True) \<longrightarrow>
            (\<forall>r1 \<in> set (data validA). \<forall>r2 \<in> set (data validB).
               r1 \<subseteq>\<^sub>m r1 ++ r2 \<and> r2 \<subseteq>\<^sub>m r1 ++ r2)))"
    using DotProduct_rows [of storeAB validA validB "[''a'', ''b'']"] by (rule conjunct1)
  from c [THEN mp, OF d] obtain t' h' where
    r: "DotProduct [''a'', ''b''] validB validA storeAB = (None, t', h')"
      "data t' = concat (map (\<lambda>r1. map (\<lambda>r2. r1 ++ r2) (data validB)) (data validA))"
      "length (data t') = length (data validA) * length (data validB)"
    and i: "(\<forall>r \<in> set (data validA). \<forall>k \<in> dom r. mbsOf storeAB validA k = Some True)
              \<and> (\<forall>r \<in> set (data validB). \<forall>k \<in> dom r. mbsOf storeAB validB k = Some True) \<longrightarrow>
            (\<forall>r1 \<in> set (data validA). \<forall>r2 \<in> set (data validB).
               r1 \<subseteq>\<^sub>m r1 ++ r2 \<and> r2 \<subseteq>\<^sub>m r1 ++ r2)"
    by (elim exE conjE)
  from i [THEN mp, OF v] r
  show "\<exists>t' h'. DotProduct [''a'', ''b''] validB validA storeAB = (None, t', h')
       \<and> data t' = concat (map (\<lambda>r1. map (\<lambda>r2. r1 ++ r2) (data validB)) (data validA))
       \<and> length (data t') = length (data validA) * length (data validB)
       \<and> (\<forall>r1 \<in> set (data validA). \<forall>r2 \<in> set (data validB).
             r1 \<subseteq>\<^sub>m r1 ++ r2 \<and> r2 \<subseteq>\<^sub>m r1 ++ r2)"
    by (intro exI conjI)
  show "length (data validA) * length (data validB) = 2"
    by (simp add: validA_def validB_def)
  have o: "\<not> disjointBinding (mbsOf storeAB validA) (mbsOf storeAB validA)"
    by (simp add: disjointBinding_def mbsOf_def storeAB_def validA_def)
  from DotProduct_rows [of storeAB validA validA "[''a'']", THEN conjunct2, THEN mp, OF o]
  show "DotProduct [''a''] validA validA storeAB = (Some DotProductNotDisjoint, validA, storeAB)" .
qed

text \<open>
  The binding sets of \<open>tableA\<close> and \<open>tableB\<close> are disjoint, both rows carry a key \<open>z\<close>,
  and the merged row holds the \<open>z\<close> of \<open>tableB\<close>: the cell of \<open>tableA\<close> is gone.
\<close>

theorem DotProduct_discards_cell_counterexample:
  "disjointBinding (mbsOf storeAB tableA) (mbsOf storeAB tableB)
   \<and> map (\<lambda>r. r ''z'') (data tableA) = [Some (textCell ''2'')]
   \<and> map (\<lambda>r. r ''z'') (data (fst (snd (DotProduct [''a'', ''b''] tableB tableA storeAB))))
       = [Some (textCell ''4'')]"
  by (simp add: DotProduct_def disjointBinding_def mbsOf_def storeAB_def tableA_def tableB_def
      alloc_def MergeRows_def Let_def)

lemma dom_markKeys: "dom (markKeys src m) = dom src \<union> dom m"
  by (auto simp: markKeys_def dom_def)

lemma markKeys_both:
  "markKeys m2 (markKeys m1 Map.empty) = (\<lambda>b. if b \<in> dom m1 \<union> dom m2 then Some True else None)"
  by (auto simp: markKeys_def fun_eq_iff dom_def)

text \<open>
  C6, as the code has it. After a successful \<open>DotProduct\<close> the binding list is the list
  of keys of the new map in the order in which \<open>range\<close> yields them: it has no
  repetition, its names are exactly the bindings of the two tables, and the map holds
  exactly these names. The order is not fixed by the two tables.
\<close>

theorem DotProduct_bindings:
  assumes "disjointBinding (mbsOf h t) (mbsOf h t2)"
    and "rangeOrder (markKeys (mbsOf h t2) (markKeys (mbsOf h t) Map.empty)) ks"
  shows "\<exists>t' h'. DotProduct ks t2 t h = (None, t', h') \<and> Bindings t' = ks
           \<and> distinct (Bindings t')
           \<and> set (Bindings t') = dom (mbsOf h t) \<union> dom (mbsOf h t2)
           \<and> mbsOf h' t' = (\<lambda>b. if b \<in> set (Bindings t') then Some True else None)"
proof -
  let ?t' = "t\<lparr>bs := ks, mbs := fresh h,
        data := concat (map (\<lambda>r1. map (\<lambda>r2. r1 ++ r2) (data t2)) (data t))\<rparr>"
  let ?h' = "h\<lparr>maps := (maps h)(fresh h := markKeys (mbsOf h t2) (markKeys (mbsOf h t) Map.empty)),
        fresh := Suc (fresh h)\<rparr>"
  from assms(2) have ks: "distinct ks" "set ks = dom (mbsOf h t) \<union> dom (mbsOf h t2)"
    by (auto simp: rangeOrder_def dom_markKeys)
  have eq: "DotProduct ks t2 t h = (None, ?t', ?h')"
    by (rule DotProduct_disjoint [OF assms(1)])
  have m: "mbsOf ?h' ?t' = (\<lambda>b. if b \<in> set (Bindings ?t') then Some True else None)"
    by (simp add: mbsOf_def Bindings_def markKeys_both ks(2))
  show ?thesis
  proof (rule exI [of _ ?t'], rule exI [of _ ?h'], intro conjI)
    show "DotProduct ks t2 t h = (None, ?t', ?h')" by (rule eq)
    show "Bindings ?t' = ks" by (simp add: Bindings_def)
    show "distinct (Bindings ?t')" using ks(1) by (simp add: Bindings_def)
    show "set (Bindings ?t') = dom (mbsOf h t) \<union> dom (mbsOf h t2)"
      using ks(2) by (simp add: Bindings_def)
    show "mbsOf ?h' ?t' = (\<lambda>b. if b \<in> set (Bindings ?t') then Some True else None)" by (rule m)
  qed
qed

theorem DotProduct_bindings_witness:
  "\<exists>t' h'. DotProduct [''b'', ''a''] tableB tableA storeAB = (None, t', h') \<and> Bindings t' = [''b'', ''a'']
           \<and> distinct (Bindings t')
           \<and> set (Bindings t') = dom (mbsOf storeAB tableA) \<union> dom (mbsOf storeAB tableB)
           \<and> mbsOf h' t' = (\<lambda>b. if b \<in> set (Bindings t') then Some True else None)"
proof -
  have d: "disjointBinding (mbsOf storeAB tableA) (mbsOf storeAB tableB)"
    by (simp add: disjointBinding_def mbsOf_def storeAB_def tableA_def tableB_def)
  have r: "rangeOrder (markKeys (mbsOf storeAB tableB) (markKeys (mbsOf storeAB tableA) Map.empty))
      [''b'', ''a'']"
    by (auto simp: rangeOrder_def dom_markKeys mbsOf_def storeAB_def tableA_def tableB_def)
  show ?thesis by (rule DotProduct_bindings [OF d r])
qed

text \<open>
  Both orders of the keys \<open>a\<close> and \<open>b\<close> are orders \<open>range\<close> can yield, and they give
  two different binding lists for the same two tables; one of them is not the receiver's
  bindings followed by the other table's.
\<close>

theorem DotProduct_binding_order_counterexample:
  "rangeOrder (markKeys (mbsOf storeAB tableB) (markKeys (mbsOf storeAB tableA) Map.empty)) [''a'', ''b'']
   \<and> rangeOrder (markKeys (mbsOf storeAB tableB) (markKeys (mbsOf storeAB tableA) Map.empty)) [''b'', ''a'']
   \<and> bs (fst (snd (DotProduct [''a'', ''b''] tableB tableA storeAB))) = [''a'', ''b'']
   \<and> bs (fst (snd (DotProduct [''b'', ''a''] tableB tableA storeAB))) = [''b'', ''a'']
   \<and> bs tableA @ bs tableB = [''a'', ''b'']"
  by (auto simp: rangeOrder_def dom_markKeys DotProduct_def disjointBinding_def mbsOf_def storeAB_def
      tableA_def tableB_def alloc_def Let_def)

subsection \<open>Sorting rows that lack a binding\<close>

lemma rowLess_no_panic: "cfg \<noteq> [] \<Longrightarrow> rowLess ri rj (Some cfg) \<noteq> Panics"
proof (induction cfg)
  case Nil
  then show ?case by simp
next
  case (Cons c rest)
  show ?case
  proof (cases "rest = []")
    case True
    then show ?thesis by (simp add: Let_def split: option.splits)
  next
    case False
    with Cons.IH show ?thesis by (simp add: Let_def split: option.splits)
  qed
qed

lemma rowLess_missing:
  "ri (Binding c) = None \<or> rj (Binding c) = None \<Longrightarrow> rowLess ri rj (Some (c # cs)) = Exits"
  by (auto split: option.splits)

lemma length_Swap [simp]: "length (Swap rows i j) = length rows"
  by (simp add: Swap_def)

lemma Swap_other: "p \<noteq> i \<Longrightarrow> p \<noteq> j \<Longrightarrow> Swap rows i j ! p = rows ! p"
  by (simp add: Swap_def)

lemma mset_Swap: "i < length rows \<Longrightarrow> j < length rows \<Longrightarrow> mset (Swap rows i j) = mset rows"
  by (simp add: Swap_def mset_swap)

lemma inner_Returns:
  "insertionSort_inner cmp rows k = Returns rows' \<Longrightarrow> k < length rows \<Longrightarrow>
   length rows' = length rows \<and> mset rows' = mset rows \<and> (\<forall>p. k < p \<longrightarrow> rows' ! p = rows ! p)"
proof (induction k arbitrary: rows)
  case 0
  then show ?case by simp
next
  case (Suc k)
  show ?case
  proof (cases "cmp (rows ! Suc k) (rows ! k)")
    case (Returns b)
    show ?thesis
    proof (cases b)
      case True
      with Returns Suc.prems have r: "insertionSort_inner cmp (Swap rows (Suc k) k) k = Returns rows'"
        by simp
      from Suc.prems have k: "k < length (Swap rows (Suc k) k)" by simp
      from Suc.IH [OF r k] have
        l: "length rows' = length rows" and m: "mset rows' = mset (Swap rows (Suc k) k)"
        and o: "\<forall>p. k < p \<longrightarrow> rows' ! p = Swap rows (Suc k) k ! p"
        by simp_all
      from m Suc.prems have "mset rows' = mset rows" by (simp add: mset_Swap)
      moreover have "\<forall>p. Suc k < p \<longrightarrow> rows' ! p = rows ! p"
        using o by (simp add: Swap_other)
      ultimately show ?thesis using l by simp
    next
      case False
      with Returns Suc.prems show ?thesis by simp
    qed
  next
    case Panics
    with Suc.prems show ?thesis by simp
  next
    case Exits
    with Suc.prems show ?thesis by simp
  qed
qed

lemma inner_no_panic:
  "(\<And>a b. cmp a b \<noteq> Panics) \<Longrightarrow> insertionSort_inner cmp rows k \<noteq> Panics"
proof (induction k arbitrary: rows)
  case 0
  show ?case by simp
next
  case (Suc k)
  from Suc.prems [of "rows ! Suc k" "rows ! k"] Suc.IH [OF Suc.prems]
  show ?case by (cases "cmp (rows ! Suc k) (rows ! k)") auto
qed

lemma outer_Exits:
  assumes bad: "\<And>a b. Bad a \<or> Bad b \<Longrightarrow> cmp a b = Exits"
    and nopanic: "\<And>a b. cmp a b \<noteq> Panics"
  shows "length rows = n \<Longrightarrow> 1 \<le> i0 \<Longrightarrow> i0 < n \<Longrightarrow> \<exists>p. i0 - 1 \<le> p \<and> p < n \<and> Bad (rows ! p) \<Longrightarrow>
         insertionSort_outer cmp rows [i0..<n] = Exits"
proof (induction "n - i0" arbitrary: i0 rows)
  case 0
  then show ?case by simp
next
  case (Suc d)
  from Suc.prems obtain p where p: "i0 - 1 \<le> p" "p < n" "Bad (rows ! p)" by blast
  from Suc.prems obtain k where i0: "i0 = Suc k" by (cases i0) auto
  have upt: "[i0..<n] = i0 # [Suc i0..<n]"
    using Suc.prems by (simp add: upt_conv_Cons)
  show ?case
  proof (cases "p \<le> i0")
    case True
    with p(1) i0 have "p = k \<or> p = Suc k" by auto
    with p(3) have "Bad (rows ! Suc k) \<or> Bad (rows ! k)" by auto
    then have "cmp (rows ! Suc k) (rows ! k) = Exits" by (rule bad)
    then have "insertionSort_inner cmp rows i0 = Exits" by (simp add: i0)
    then show ?thesis by (simp only: upt insertionSort_outer.simps outcome.case)
  next
    case False
    then have far: "i0 < p" by simp
    show ?thesis
    proof (cases "insertionSort_inner cmp rows i0")
      case (Returns rows')
      from Suc.prems have "i0 < length rows" by simp
      from inner_Returns [OF Returns this] have
        l: "length rows' = length rows" and o: "\<forall>q. i0 < q \<longrightarrow> rows' ! q = rows ! q"
        by simp_all
      from far p o have b: "\<exists>q. Suc i0 - 1 \<le> q \<and> q < n \<and> Bad (rows' ! q)"
        by (intro exI [of _ p]) simp
      from far p have lt: "Suc i0 < n" by simp
      from Suc.hyps(2) have d: "d = n - Suc i0" by simp
      have "insertionSort_outer cmp rows' [Suc i0..<n] = Exits"
        by (rule Suc.hyps(1) [OF d _ _ lt b]) (use l Suc.prems in simp_all)
      with Returns show ?thesis by (simp add: upt)
    next
      case Panics
      with inner_no_panic [of cmp rows i0] nopanic show ?thesis by blast
    next
      case Exits
      then show ?thesis by (simp add: upt)
    qed
  qed
qed

lemma Sort_missing:
  assumes "2 \<le> length (data t)" and "\<exists>r \<in> set (data t). r (Binding c) = None"
  shows "Sort (Some (c # cs)) t = Exits"
proof -
  from assms(2) obtain p where p: "p < length (data t)" "(data t ! p) (Binding c) = None"
    by (auto simp: in_set_conv_nth)
  have "insertionSort_outer (\<lambda>ri rj. rowLess ri rj (Some (c # cs))) (data t) [1..<length (data t)] = Exits"
  proof (rule outer_Exits [where Bad = "\<lambda>r. r (Binding c) = None"])
    show "rowLess a b (Some (c # cs)) = Exits" if "a (Binding c) = None \<or> b (Binding c) = None" for a b
      using that by (rule rowLess_missing)
    show "rowLess a b (Some (c # cs)) \<noteq> Panics" for a b
      by (rule rowLess_no_panic) simp
    show "\<exists>q. 1 - 1 \<le> q \<and> q < length (data t) \<and> (data t ! q) (Binding c) = None"
      using p by auto
  qed (use assms(1) in simp_all)
  then show ?thesis by (simp add: Sort_def insertionSort_def)
qed

lemma toMap_keepX: "toMap keepX = [(''x'', [(''x'', \<lparr>InAlias = ''x'', OutAlias = ''x'', Acc = None\<rparr>)])]"
  by (simp add: toMap_def keepX_def)

text \<open>
  C1, as the code has it. \<open>rowLess\<close> ends the process through \<open>log.Fatalf\<close> whenever one
  of the two rows lacks the binding of the entry it looks at. So when a table of at
  least two rows has a row without the binding of the first entry of the SortConfig,
  \<open>Sort\<close> ends the process, and so does \<open>Reduce\<close> once its configuration has passed the
  tests: no error comes back to the caller. (\<open>Sort\<close> has no error result.)
\<close>

theorem missing_binding_exits:
  "(ri (Binding c) = None \<or> rj (Binding c) = None \<longrightarrow> rowLess ri rj (Some (c # cs)) = Exits)
   \<and> (2 \<le> length (data t) \<and> (\<exists>r \<in> set (data t). r (Binding c) = None) \<longrightarrow>
        Sort (Some (c # cs)) t = Exits
        \<and> (reduceCheck (toMap aaps) t h = None \<longrightarrow> Reduce lib (Some (c # cs)) aaps t h = Exits))"
proof (intro conjI impI)
  assume "ri (Binding c) = None \<or> rj (Binding c) = None"
  then show "rowLess ri rj (Some (c # cs)) = Exits" by (rule rowLess_missing)
next
  assume a: "2 \<le> length (data t) \<and> (\<exists>r \<in> set (data t). r (Binding c) = None)"
  then show s: "Sort (Some (c # cs)) t = Exits" by (simp add: Sort_missing)
  assume "reduceCheck (toMap aaps) t h = None"
  moreover from a have "data t \<noteq> []" by auto
  ultimately show "Reduce lib (Some (c # cs)) aaps t h = Exits"
    using s by (simp add: Reduce_def NumRows_def Let_def)
qed

theorem missing_binding_exits_witness:
  "rowLess (data missingX ! 0) (data missingX ! 1) (Some [asc ''x'']) = Exits
   \<and> Sort (Some [asc ''x'']) missingX = Exits
   \<and> Reduce exampleLib (Some [asc ''x'']) keepX missingX storeX = Exits"
proof -
  have r: "(data missingX ! 0) (Binding (asc ''x'')) = None \<or> (data missingX ! 1) (Binding (asc ''x'')) = None"
    by (simp add: missingX_def asc_def)
  have t: "2 \<le> length (data missingX) \<and> (\<exists>r \<in> set (data missingX). r (Binding (asc ''x'')) = None)"
    by (simp add: missingX_def asc_def)
  have v: "reduceCheck (toMap keepX) missingX storeX = None"
    by (simp add: reduceCheck_def toMap_keepX missingX_def storeX_def mbsOf_def)
  note m = missing_binding_exits [where ri = "data missingX ! 0" and c = "asc ''x''"
      and rj = "data missingX ! 1" and t = missingX and cs = "[]" and aaps = keepX and h = storeX
      and lib = exampleLib]
  from m [THEN conjunct1, THEN mp, OF r]
  have 1: "rowLess (data missingX ! 0) (data missingX ! 1) (Some [asc ''x'']) = Exits" .
  from m [THEN conjunct2, THEN mp, OF t]
  have 2: "Sort (Some [asc ''x'']) missingX = Exits"
    and 3: "reduceCheck (toMap keepX) missingX storeX = None \<longrightarrow>
      Reduce exampleLib (Some [asc ''x'']) keepX missingX storeX = Exits"
    by (rule conjunct1, rule conjunct2)
  from 1 2 3 [THEN mp, OF v] show ?thesis by (intro conjI)
qed

text \<open>
  The second row of \<open>missingX\<close> lacks the binding \<open>x\<close> of the SortConfig: \<open>Sort\<close> and
  \<open>Reduce\<close> end the process and return no error.
\<close>

theorem missing_binding_counterexample:
  "(data missingX ! 1) ''x'' = None
   \<and> Sort (Some [asc ''x'']) missingX = Exits
   \<and> Reduce exampleLib (Some [asc ''x'']) keepX missingX storeX = Exits"
  by (simp add: missingX_def asc_def Sort_def insertionSort_def Reduce_def reduceCheck_def
      toMap_keepX storeX_def mbsOf_def NumRows_def Let_def)

subsection \<open>Reduce and the table it leaves after an error\<close>

lemma toMap_keepG: "toMap keepG = [(''g'', [(''g'', \<lparr>InAlias = ''g'', OutAlias = ''g'', Acc = None\<rparr>)])]"
  by (simp add: toMap_def keepG_def)

lemma Sort_unsortedX:
  "Sort (Some [asc ''x'']) unsortedX =
     Returns (unsortedX\<lparr>data := [[''x'' \<mapsto> textCell ''a''], [''x'' \<mapsto> textCell ''b'']]\<rparr>)"
  by (simp add: Sort_def insertionSort_def unsortedX_def asc_def Swap_def comparedStrings_def
      ifBoth_def textCell_def stringLess_def TrimSpace_def isSpace_def)

lemma Cell_String_textCell: "Cell_String (textCell s) = s"
  by (simp add: Cell_String_def textCell_def)

lemma fold_first:
  "fullGroupRangeReduce lib 0 (Suc 0) (toMap keepG)
     (unsortedX\<lparr>data := [[''x'' \<mapsto> textCell ''a''], [''x'' \<mapsto> textCell ''b'']]\<rparr>) =
   Returns (Inl EmptyReducedRow)"
  by (simp add: fullGroupRangeReduce_def toMap_keepG pairsOf_def visited_def)

lemma Reduce_unsortedX:
  "Reduce exampleLib (Some [asc ''x'']) keepG unsortedX storeG =
     Returns (Some EmptyReducedRow,
       unsortedX\<lparr>data := [[''x'' \<mapsto> textCell ''a''], [''x'' \<mapsto> textCell ''b'']]\<rparr>, storeG)"
proof -
  have v: "reduceCheck (toMap keepG) unsortedX storeG = None"
    by (simp add: reduceCheck_def toMap_keepG unsortedX_def storeG_def mbsOf_def)
  have n: "NumRows unsortedX \<noteq> 0" by (simp add: NumRows_def unsortedX_def)
  have g: "groupLoop exampleLib [asc ''x''] (toMap keepG)
      (unsortedX\<lparr>data := [[''x'' \<mapsto> textCell ''a''], [''x'' \<mapsto> textCell ''b'']]\<rparr>)
      [[''x'' \<mapsto> textCell ''a''], [''x'' \<mapsto> textCell ''b'']] 0 '''' 0 [] = Returns (Inl EmptyReducedRow)"
    by (simp add: fold_first asc_def Cell_String_textCell)
  show ?thesis
    by (simp add: Reduce_def v n Sort_unsortedX g Let_def del: groupLoop.simps)
qed

lemma outer_Returns:
  "insertionSort_outer cmp rows idxs = Returns rows' \<Longrightarrow> \<forall>i \<in> set idxs. i < length rows \<Longrightarrow>
   length rows' = length rows \<and> mset rows' = mset rows"
proof (induction idxs arbitrary: rows)
  case Nil
  then show ?case by simp
next
  case (Cons i rest)
  show ?case
  proof (cases "insertionSort_inner cmp rows i")
    case (Returns mid)
    from Cons.prems(2) have "i < length rows" by simp
    from inner_Returns [OF Returns this]
    have l: "length mid = length rows" and m: "mset mid = mset rows" by simp_all
    from Cons.prems(1) Returns have r: "insertionSort_outer cmp mid rest = Returns rows'" by simp
    from Cons.prems(2) l have "\<forall>i \<in> set rest. i < length mid" by simp
    from Cons.IH [OF r this] l m show ?thesis by simp
  next
    case Panics
    with Cons.prems(1) show ?thesis by simp
  next
    case Exits
    with Cons.prems(1) show ?thesis by simp
  qed
qed

lemma Sort_Returns:
  assumes "Sort cfg t = Returns t'"
  shows "bs t' = bs t \<and> mbs t' = mbs t \<and> mset (data t') = mset (data t)"
proof (cases cfg)
  case None
  with assms show ?thesis by (simp add: Sort_def)
next
  case (Some c)
  with assms obtain rows where
    s: "insertionSort_outer (\<lambda>ri rj. rowLess ri rj cfg) (data t) [1..<length (data t)] = Returns rows"
    and t': "t' = t\<lparr>data := rows\<rparr>"
    by (auto simp: Sort_def insertionSort_def split: outcome.splits)
  from outer_Returns [OF s] have "mset rows = mset (data t)" by simp
  with t' show ?thesis by simp
qed

text \<open>
  C2, as the code has it. An error of the tests of the configuration comes back with the
  table and the store as they were. An error of the folding of a group comes back after
  the table has been sorted in place: store and bindings are as they were, and the rows
  are the rows \<open>Sort\<close> has left, the same rows in a possibly different order.
\<close>

theorem Reduce_error_state:
  "(reduceCheck (toMap aaps) t h = Some e \<longrightarrow> Reduce lib cfg aaps t h = Returns (Some e, t, h))
   \<and> (reduceCheck (toMap aaps) t h = None \<and> Reduce lib cfg aaps t h = Returns (Some e, t', h') \<longrightarrow>
        h' = h \<and> Sort cfg t = Returns t' \<and> bs t' = bs t \<and> mbs t' = mbs t
        \<and> mset (data t') = mset (data t))"
proof (intro conjI impI)
  assume "reduceCheck (toMap aaps) t h = Some e"
  then show "Reduce lib cfg aaps t h = Returns (Some e, t, h)"
    by (simp add: Reduce_def)
next
  assume a: "reduceCheck (toMap aaps) t h = None \<and> Reduce lib cfg aaps t h = Returns (Some e, t', h')"
  then have "h' = h \<and> Sort cfg t = Returns t'"
    by (auto simp: Reduce_def Let_def split: if_splits outcome.splits sum.splits prod.splits)
  then show "h' = h" and s: "Sort cfg t = Returns t'" by simp_all
  from Sort_Returns [OF s]
  show "bs t' = bs t" and "mbs t' = mbs t" and "mset (data t') = mset (data t)" by simp_all
qed

theorem Reduce_error_state_witness:
  "Reduce exampleLib (Some [asc ''x'']) [] unsortedX storeG =
     Returns (Some CannotProjectBindings, unsortedX, storeG)
   \<and> Sort (Some [asc ''x'']) unsortedX =
       Returns (unsortedX\<lparr>data := [[''x'' \<mapsto> textCell ''a''], [''x'' \<mapsto> textCell ''b'']]\<rparr>)
   \<and> bs (unsortedX\<lparr>data := [[''x'' \<mapsto> textCell ''a''], [''x'' \<mapsto> textCell ''b'']]\<rparr>) = bs unsortedX
   \<and> mset (data (unsortedX\<lparr>data := [[''x'' \<mapsto> textCell ''a''], [''x'' \<mapsto> textCell ''b'']]\<rparr>))
       = mset (data unsortedX)"
proof -
  let ?t' = "unsortedX\<lparr>data := [[''x'' \<mapsto> textCell ''a''], [''x'' \<mapsto> textCell ''b'']]\<rparr>"
  have c: "reduceCheck (toMap []) unsortedX storeG = Some CannotProjectBindings"
    by (simp add: reduceCheck_def toMap_def unsortedX_def)
  have v: "reduceCheck (toMap keepG) unsortedX storeG = None"
    by (simp add: reduceCheck_def toMap_keepG unsortedX_def storeG_def mbsOf_def)
  from Reduce_error_state [where aaps = "[]" and t = unsortedX and h = storeG
      and e = CannotProjectBindings and lib = exampleLib and cfg = "Some [asc ''x'']",
      THEN conjunct1, THEN mp, OF c]
  have 1: "Reduce exampleLib (Some [asc ''x'']) [] unsortedX storeG =
     Returns (Some CannotProjectBindings, unsortedX, storeG)" .
  from Reduce_error_state [where aaps = keepG and t = unsortedX and h = storeG
      and e = EmptyReducedRow and lib = exampleLib and cfg = "Some [asc ''x'']"
      and t' = ?t' and h' = storeG, THEN conjunct2, THEN mp, OF conjI, OF v Reduce_unsortedX]
  have 2: "Sort (Some [asc ''x'']) unsortedX = Returns ?t'" and 3: "bs ?t' = bs unsortedX"
    and 4: "mset (data ?t') = mset (data unsortedX)"
    by simp_all
  from 1 2 3 4 show ?thesis by (intro conjI)
qed

text \<open>
  \<open>Reduce\<close> sorts the two rows of \<open>unsortedX\<close>, then fails on the first group, whose
  row carries no binding of the table; the rows stay in their new order.
\<close>

theorem Reduce_failed_fold_counterexample:
  "map (\<lambda>r. r ''x'') (data unsortedX) = [Some (textCell ''b''), Some (textCell ''a'')]
   \<and> Reduce exampleLib (Some [asc ''x'']) keepG unsortedX storeG =
       Returns (Some EmptyReducedRow,
         unsortedX\<lparr>data := [[''x'' \<mapsto> textCell ''a''], [''x'' \<mapsto> textCell ''b'']]\<rparr>, storeG)
   \<and> map (\<lambda>r. r ''x'') [[''x'' \<mapsto> textCell ''a''], [''x'' \<mapsto> textCell ''b'']]
       = [Some (textCell ''a''), Some (textCell ''b'')]"
  by (simp add: Reduce_unsortedX) (simp add: unsortedX_def)

subsection \<open>The reduction example\<close>

lemma toMap_sumPairs:
  "toMap sumPairs =
     [(''g'', [(''g'', \<lparr>InAlias = ''g'', OutAlias = ''g'', Acc = None\<rparr>)]),
      (''val'', [(''total'', \<lparr>InAlias = ''val'', OutAlias = ''total'',
          Acc = Some (NewSumInt64LiteralAccumulator 0)\<rparr>)])]"
  by (simp add: toMap_def sumPairs_def)

lemma Cell_String_intCell: "Cell_String (intCell s n) = s"
  by (simp add: Cell_String_def intCell_def literalCell_def)

lemma rowLess_intCell_g:
  "rowLess [''g'' \<mapsto> intCell a m, ''val'' \<mapsto> x] [''g'' \<mapsto> intCell b n, ''val'' \<mapsto> y] (Some [asc ''g''])
     = Returns (stringLess a b False < 0)"
  by (simp add: asc_def intCell_def literalCell_def comparedStrings_def ifBoth_def Let_def)

lemma Sort_groupsT: "Sort (Some [asc ''g'']) groupsT = Returns groupsT"
  by (simp add: Sort_def insertionSort_def groupsT_def rowLess_intCell_g upt_rec [of 1]
      stringLess_def TrimSpace_def isSpace_def del: rowLess.simps)

lemma data_groupsT:
  "data groupsT =
     [[''g'' \<mapsto> intCell ''1'' 1, ''val'' \<mapsto> intCell ''3'' 3],
      [''g'' \<mapsto> intCell ''1'' 1, ''val'' \<mapsto> intCell ''4'' 4],
      [''g'' \<mapsto> intCell ''2'' 2, ''val'' \<mapsto> intCell ''5'' 5]]"
  by (simp add: groupsT_def)

lemma first_group_Panics:
  "fullGroupRangeReduce lib 0 (Suc (Suc 0)) (toMap sumPairs) groupsT = Panics"
  by (simp add: fullGroupRangeReduce_def toMap_sumPairs pairsOf_def groupsT_def
      NewSumInt64LiteralAccumulator_def)

text \<open>
  C3. The example of the claim does not reduce to two rows: \<open>Reduce\<close> hands
  \<open>r[a.InAlias]\<close>, a \<open>*Cell\<close>, to \<open>Accumulate\<close>, and the integer sum starts with
  \<open>l := v.(*literal.Literal)\<close>, which panics for a \<open>*Cell\<close>. This holds whatever the
  functions left open are.
\<close>

theorem Reduce_sum_example_panics:
  "Reduce lib (Some [asc ''g'']) sumPairs groupsT storeGV = Panics"
proof -
  have v: "reduceCheck (toMap sumPairs) groupsT storeGV = None"
    by (simp add: reduceCheck_def toMap_sumPairs groupsT_def storeGV_def mbsOf_def)
  have n: "NumRows groupsT \<noteq> 0" by (simp add: NumRows_def groupsT_def)
  have g: "groupLoop lib [asc ''g''] (toMap sumPairs) groupsT (data groupsT) 0 '''' 0 [] = Panics"
    by (simp add: data_groupsT first_group_Panics asc_def Cell_String_intCell)
  show ?thesis
    by (simp add: Reduce_def v n Sort_groupsT g Let_def del: groupLoop.simps)
qed

text \<open>
  With the count in place of the sum the same table reduces to one row for each group,
  in the order of the groups, with the cell of \<open>g\<close> taken from the first row of the
  group: \<open>(g=1, total=2)\<close> and \<open>(g=2, total=1)\<close>.
\<close>

lemma toMap_countPairs:
  "toMap countPairs =
     [(''g'', [(''g'', \<lparr>InAlias = ''g'', OutAlias = ''g'', Acc = None\<rparr>)]),
      (''val'', [(''total'', \<lparr>InAlias = ''val'', OutAlias = ''total'', Acc = Some NewCountAccumulator\<rparr>)])]"
  by (simp add: toMap_def countPairs_def)

lemma count_first_group:
  "fullGroupRangeReduce exampleLib 0 (Suc (Suc 0)) (toMap countPairs) groupsT =
     Returns (Inr [''g'' \<mapsto> intCell ''1'' 1, ''total'' \<mapsto> literalCell (builtLiteral 2)])"
  by (simp add: fullGroupRangeReduce_def toMap_countPairs pairsOf_def visited_def outputCell_def
      groupsT_def NewCountAccumulator_def exampleLib_def)

lemma count_second_group:
  "fullGroupRangeReduce exampleLib (Suc (Suc 0)) (Suc (Suc (Suc 0))) (toMap countPairs) groupsT =
     Returns (Inr [''g'' \<mapsto> intCell ''2'' 2, ''total'' \<mapsto> literalCell (builtLiteral 1)])"
  by (simp add: fullGroupRangeReduce_def toMap_countPairs pairsOf_def visited_def outputCell_def
      groupsT_def NewCountAccumulator_def exampleLib_def)

lemma Reduce_count_example:
  "Reduce exampleLib (Some [asc ''g'']) countPairs groupsT storeGV =
     Returns (None,
       \<lparr>bs = [''g'', ''total''], mbs = 1,
        data = [[''g'' \<mapsto> intCell ''1'' 1, ''total'' \<mapsto> literalCell (builtLiteral 2)],
                [''g'' \<mapsto> intCell ''2'' 2, ''total'' \<mapsto> literalCell (builtLiteral 1)]]\<rparr>,
       \<lparr>maps = (maps storeGV)(1 := [''g'' \<mapsto> True, ''total'' \<mapsto> True]), fresh = 2\<rparr>)"
proof -
  have v: "reduceCheck (toMap countPairs) groupsT storeGV = None"
    by (simp add: reduceCheck_def toMap_countPairs groupsT_def storeGV_def mbsOf_def)
  have n: "NumRows groupsT \<noteq> 0" by (simp add: NumRows_def groupsT_def)
  have g: "groupLoop exampleLib [asc ''g''] (toMap countPairs) groupsT (data groupsT) 0 '''' 0 [] =
      Returns (Inr (Suc (Suc 0), [[''g'' \<mapsto> intCell ''1'' 1, ''total'' \<mapsto> literalCell (builtLiteral 2)]]))"
    by (simp add: data_groupsT count_first_group asc_def Cell_String_intCell)
  have l: "length (data groupsT) = Suc (Suc (Suc 0))" by (simp add: groupsT_def)
  show ?thesis
    by (simp add: Reduce_def v n Sort_groupsT g l count_second_group alloc_def Let_def
        del: groupLoop.simps)
      (simp add: groupsT_def storeGV_def countPairs_def numeral_2_eq_2)
qed

subsection \<open>Bindings and the map of a table\<close>

lemma dom_foldl_upd: "dom (foldl (\<lambda>m b. m(b \<mapsto> True)) m0 names) = dom m0 \<union> set names"
  by (induction names arbitrary: m0) auto

lemma New_duplicates: "\<not> distinct names \<Longrightarrow> New names h = (Inl DuplicatedBindings, h)"
proof -
  assume "\<not> distinct names"
  then have "card (set names) \<noteq> length names" using card_distinct by blast
  then show ?thesis by (simp add: New_def len_def dom_foldl_upd Let_def)
qed

lemma New_distinct:
  "distinct names \<Longrightarrow>
   New names h =
     (Inr \<lparr>bs = names, mbs = fresh h, data = []\<rparr>,
      h\<lparr>maps := (maps h)(fresh h := foldl (\<lambda>m b. m(b \<mapsto> True)) Map.empty names),
        fresh := Suc (fresh h)\<rparr>)"
  by (simp add: New_def len_def dom_foldl_upd Let_def alloc_def distinct_card)

text \<open>
  Every operation leaves its receiver with \<open>bs\<close> and \<open>mbs\<close> in agreement, when it
  found it so (for \<open>AppendTable\<close>, when it found both tables so).
\<close>

lemma inSync_lookup: "inSync h t \<Longrightarrow> (maps h (mbs t) b = Some True) = (b \<in> set (bs t))"
  by (simp add: inSync_def mbsOf_def)

lemma AddBindings_inSync:
  "inSync h t \<Longrightarrow> AddBindings names t h = (t', h') \<Longrightarrow>
   inSync h' t' \<and> set (bs t') = set (bs t) \<union> set names \<and> mbs t' = mbs t \<and> data t' = data t"
proof (induction names arbitrary: t h)
  case Nil
  then show ?case by simp
next
  case (Cons b rest)
  show ?case
  proof (cases "b \<in> set (bs t)")
    case True
    with Cons.prems have "AddBindings rest t h = (t', h')"
      by (simp add: inSync_lookup)
    from Cons.IH [OF Cons.prems(1) this] True show ?thesis by auto
  next
    case False
    let ?t1 = "t\<lparr>bs := bs t @ [b]\<rparr>"
    let ?h1 = "h\<lparr>maps := (maps h)(mbs t := (maps h (mbs t))(b \<mapsto> True))\<rparr>"
    from False Cons.prems have r: "AddBindings rest ?t1 ?h1 = (t', h')"
      by (simp add: inSync_lookup)
    from False Cons.prems(1) have s: "inSync ?h1 ?t1"
      by (auto simp: inSync_def mbsOf_def fun_eq_iff)
    from Cons.IH [OF s r] show ?thesis by auto
  qed
qed

lemma New_inSync: "New names h = (Inr t, h') \<Longrightarrow> inSync h' t"
proof -
  assume n: "New names h = (Inr t, h')"
  have d: "distinct names"
  proof (rule ccontr)
    assume "\<not> distinct names"
    then have "New names h = (Inl DuplicatedBindings, h)" by (rule New_duplicates)
    with n show False by simp
  qed
  have "foldl (\<lambda>m b. m(b \<mapsto> True)) m0 names = (\<lambda>b. if b \<in> set names then Some True else m0 b)" for m0
    by (induction names arbitrary: m0) (auto simp: fun_eq_iff)
  with n d show ?thesis
    by (auto simp: New_distinct inSync_def mbsOf_def)
qed

lemma ProjectBindings_inSync:
  assumes "inSync h t" and "ProjectBindings names t h = (e, t', h')"
  shows "inSync h' t'"
proof (cases "length (data t) = 0 \<or> len (mbsOf h t) = 0")
  case True
  with assms show ?thesis by (auto simp: ProjectBindings_def)
next
  case False
  show ?thesis
  proof (cases "find (\<lambda>b. mbsOf h t b \<noteq> Some True) names")
    case (Some b)
    with False assms show ?thesis by (auto simp: ProjectBindings_def)
  next
    case None
    let ?h1 = "h\<lparr>maps := (maps h)(fresh h := Map.empty), fresh := Suc (fresh h)\<rparr>"
    let ?t1 = "t\<lparr>bs := [], mbs := fresh h\<rparr>"
    from False None assms(2) have a: "AddBindings names ?t1 ?h1 = (t', h')"
      by (auto simp: ProjectBindings_def alloc_def split: prod.splits)
    have "inSync ?h1 ?t1" by (simp add: inSync_def mbsOf_def)
    from AddBindings_inSync [OF this a] show ?thesis by simp
  qed
qed

lemma AppendTable_inSync:
  assumes "inSync h t" and "inSync h t2" and "AppendTable (Some t2) t h = (e, t')"
  shows "inSync h t'"
  using assms by (auto simp: inSync_def mbsOf_def Let_def split: if_splits)

lemma DotProduct_inSync:
  assumes "rangeOrder (markKeys (mbsOf h t2) (markKeys (mbsOf h t) Map.empty)) ks"
    and "DotProduct ks t2 t h = (e, t', h')" and "inSync h t"
  shows "inSync h' t'"
proof (cases "disjointBinding (mbsOf h t) (mbsOf h t2)")
  case True
  from assms(1) have "distinct ks" "set ks = dom (mbsOf h t) \<union> dom (mbsOf h t2)"
    by (auto simp: rangeOrder_def dom_markKeys)
  with assms(2) show ?thesis
    unfolding DotProduct_disjoint [OF True]
    by (auto simp: inSync_def mbsOf_def markKeys_both)
next
  case False
  with assms(2,3) show ?thesis by (simp add: DotProduct_overlap)
qed


lemma outBindings_inSync:
  "inSync h t \<Longrightarrow> outBindings aaps t h = (t', h') \<Longrightarrow>
   inSync h' t' \<and> set (bs t') = set (bs t) \<union> OutAlias ` set aaps \<and> data t' = data t"
proof (induction aaps arbitrary: t h)
  case Nil
  then show ?case by simp
next
  case (Cons aap rest)
  let ?t1 = "if maps h (mbs t) (OutAlias aap) \<noteq> Some True then t\<lparr>bs := bs t @ [OutAlias aap]\<rparr> else t"
  let ?h1 = "h\<lparr>maps := (maps h)(mbs t := (maps h (mbs t))(OutAlias aap \<mapsto> True))\<rparr>"
  from Cons.prems(2) have r: "outBindings rest ?t1 ?h1 = (t', h')" by simp
  have m: "mbs ?t1 = mbs t" by simp
  from Cons.prems(1) have s: "inSync ?h1 ?t1"
    by (auto simp: inSync_def mbsOf_def fun_eq_iff)
  have b: "set (bs ?t1) = insert (OutAlias aap) (set (bs t))"
    using Cons.prems(1) by (auto simp: inSync_lookup)
  have d: "data ?t1 = data t" by simp
  from Cons.IH [OF s r] b d show ?case by auto
qed

lemma Reduce_inSync:
  assumes "Reduce lib cfg aaps t h = Returns (e, t', h')" and "inSync h t"
  shows "inSync h' t'"
proof (cases "reduceCheck (toMap aaps) t h")
  case (Some err)
  with assms show ?thesis by (simp add: Reduce_def)
next
  case None
  show ?thesis
  proof (cases "NumRows t = 0")
    case True
    with None assms show ?thesis by (simp add: Reduce_def)
  next
    case False
    show ?thesis
    proof (cases "Sort cfg t")
      case (Returns t1)
      from Sort_Returns [OF Returns] have same: "bs t1 = bs t" "mbs t1 = mbs t" by simp_all
      with assms(2) have s1: "inSync h t1" by (simp add: inSync_def mbsOf_def)
      let ?cfg = "case cfg of None \<Rightarrow> [] | Some c \<Rightarrow> c"
      let ?h1 = "h\<lparr>maps := (maps h)(fresh h := Map.empty), fresh := Suc (fresh h)\<rparr>"
      let ?t0 = "t1\<lparr>bs := [], mbs := fresh h\<rparr>"
      have s0: "inSync ?h1 ?t0" by (simp add: inSync_def mbsOf_def)
      show ?thesis
      proof (cases "groupLoop lib ?cfg (toMap aaps) t1 (data t1) 0 '''' 0 []")
        case loop: (Returns res)
        show ?thesis
        proof (cases res)
          case (Inl err)
          with None False Returns loop assms(1) have "t' = t1" "h' = h"
            by (simp_all add: Reduce_def)
          with s1 show ?thesis by simp
        next
          case (Inr groups)
          obtain lastIdx newData where g: "groups = (lastIdx, newData)" by (cases groups)
          show ?thesis
          proof (cases "fullGroupRangeReduce lib lastIdx (length (data t1)) (toMap aaps) t1")
            case final: (Returns row)
            show ?thesis
            proof (cases row)
              case (Inl err)
              with None False Returns loop Inr g final assms(1) have "t' = t1" "h' = h"
                by (simp_all add: Reduce_def)
              with s1 show ?thesis by simp
            next
              case row: (Inr nr)
              obtain t2 h2 where o: "outBindings aaps ?t0 ?h1 = (t2, h2)"
                by (cases "outBindings aaps ?t0 ?h1")
              with None False Returns loop Inr g final row assms(1)
              have "t' = t2\<lparr>data := newData @ [nr]\<rparr>" "h' = h2"
                by (simp_all add: Reduce_def alloc_def)
              moreover from outBindings_inSync [OF s0 o] have "inSync h2 t2" by simp
              ultimately show ?thesis by (simp add: inSync_def mbsOf_def)
            qed
          next
            case Panics
            with None False Returns loop Inr g assms(1) show ?thesis by (simp add: Reduce_def)
          next
            case Exits
            with None False Returns loop Inr g assms(1) show ?thesis by (simp add: Reduce_def)
          qed
        qed
      next
        case Panics
        with None False Returns assms(1) show ?thesis by (simp add: Reduce_def)
      next
        case Exits
        with None False Returns assms(1) show ?thesis by (simp add: Reduce_def)
      qed
    next
      case Panics
      with None False assms(1) show ?thesis by (simp add: Reduce_def)
    next
      case Exits
      with None False assms(1) show ?thesis by (simp add: Reduce_def)
    qed
  qed
qed

text \<open>
  C9. \<open>New\<close> refuses a list with a repeated binding, and every operation keeps the
  agreement of \<open>bs\<close> and \<open>mbs\<close> for its receiver. But a table can lose it without being
  the receiver: \<open>AppendTable\<close> on a receiver without bindings makes the receiver hold the
  map of the appended table (\<open>donor\<close>), and \<open>AddBindings\<close> on the receiver then writes
  \<open>b\<close> into that map. Afterwards \<open>donor\<close> has the binding list \<open>[a]\<close> and
  \<open>HasBinding("b")\<close> true.
\<close>

theorem AppendTable_shares_map:
  "New [''a'', ''a''] emptyStore = (Inl DuplicatedBindings, emptyStore)
   \<and> fst (New [] emptyStore) = Inr adopter
   \<and> New [''a''] (snd (New [] emptyStore)) = (Inr donor, twoMaps)
   \<and> AppendTable (Some donor) adopter twoMaps = (None, adopter\<lparr>bs := [''a''], mbs := mbs donor\<rparr>)
   \<and> Bindings donor = [''a'']
   \<and> HasBinding ''b'' donor twoMaps = False
   \<and> HasBinding ''b'' donor
        (snd (AddBindings [''b''] (adopter\<lparr>bs := [''a''], mbs := mbs donor\<rparr>) twoMaps)) = True"
proof (intro conjI)
  show "New [''a'', ''a''] emptyStore = (Inl DuplicatedBindings, emptyStore)"
    by (simp add: New_duplicates)
  show "fst (New [] emptyStore) = Inr adopter"
    by (simp add: New_distinct emptyStore_def adopter_def)
  show "New [''a''] (snd (New [] emptyStore)) = (Inr donor, twoMaps)"
    by (simp add: New_distinct emptyStore_def donor_def twoMaps_def fun_eq_iff)
  show "AppendTable (Some donor) adopter twoMaps = (None, adopter\<lparr>bs := [''a''], mbs := mbs donor\<rparr>)"
    by (simp add: Bindings_def adopter_def donor_def)
  show "Bindings donor = [''a'']" by (simp add: Bindings_def donor_def)
  show "HasBinding ''b'' donor twoMaps = False"
    by (simp add: HasBinding_def mbsOf_def donor_def twoMaps_def)
  show "HasBinding ''b'' donor
        (snd (AddBindings [''b''] (adopter\<lparr>bs := [''a''], mbs := mbs donor\<rparr>) twoMaps)) = True"
    by (simp add: HasBinding_def mbsOf_def donor_def twoMaps_def adopter_def)
qed

end
